theory Spec2Isabelle
  imports Complex_Main
begin

section \<open>Numbers, exceptions and numpy arrays\<close>

text \<open>
  The program computes with IEEE doubles. The embedding computes with real numbers:
  every arithmetic operation is exact, and every array element is a real. Two values of
  Python's float that are not numbers are created by the program's own control flow and
  are kept: \<open>float('inf')\<close>, the first \<open>best_loss\<close> of \<open>fit_params\<close>, and the NaN
  that \<open>np.mean\<close> returns for an empty sequence. A comparison with NaN is false, as in
  Python.

  An exception is a value of \<open>py_error\<close>; a function that can raise returns
  \<open>py_error + 'a\<close>, with \<open>Inl\<close> for the exception.
\<close>

datatype py_error =
    FileNotFoundError string
  | ValueError string
  | KeyError string
  | AttributeError string
  | OSError string

datatype pyfloat = Fin real | PosInf | NaN

fun float_lt :: "pyfloat \<Rightarrow> pyfloat \<Rightarrow> bool" where
  "float_lt (Fin a) (Fin b) = (a < b)"
| "float_lt (Fin a) PosInf = True"
| "float_lt _ _ = False"

text \<open>
  A one-dimensional numpy array is a list. The arithmetic operators of the source are
  element-wise: between two arrays (always of one length in this program, both computed
  from the same \<open>t\<close>), and between an array and a scalar, which is broadcast.
\<close>

definition arr_add :: "real list \<Rightarrow> real list \<Rightarrow> real list" where
  "arr_add a b = map2 (+) a b"

definition arr_sub :: "real list \<Rightarrow> real list \<Rightarrow> real list" where
  "arr_sub a b = map2 (-) a b"

definition arr_mul :: "real list \<Rightarrow> real list \<Rightarrow> real list" where
  "arr_mul a b = map2 (*) a b"

definition arr_mul_scalar :: "real list \<Rightarrow> real \<Rightarrow> real list" where
  "arr_mul_scalar a c = map (\<lambda>v. v * c) a"

definition scalar_mul_arr :: "real \<Rightarrow> real list \<Rightarrow> real list" where
  "scalar_mul_arr c a = map (\<lambda>v. c * v) a"

definition arr_add_scalar :: "real list \<Rightarrow> real \<Rightarrow> real list" where
  "arr_add_scalar a c = map (\<lambda>v. v + c) a"

definition scalar_add_arr :: "real \<Rightarrow> real list \<Rightarrow> real list" where
  "scalar_add_arr c a = map (\<lambda>v. c + v) a"

definition arr_sub_scalar :: "real list \<Rightarrow> real \<Rightarrow> real list" where
  "arr_sub_scalar a c = map (\<lambda>v. v - c) a"

definition arr_square :: "real list \<Rightarrow> real list" where
  "arr_square a = map (\<lambda>v. v\<^sup>2) a"

definition np_abs :: "real list \<Rightarrow> real list" where
  "np_abs a = map abs a"

definition np_exp :: "real list \<Rightarrow> real list" where
  "np_exp a = map exp a"

definition np_sin :: "real list \<Rightarrow> real list" where
  "np_sin a = map sin a"

definition np_sqrt :: "real list \<Rightarrow> real list" where
  "np_sqrt a = map sqrt a"

text \<open>
  \<open>np.min\<close> of an empty array raises ValueError; \<open>np.mean\<close> of an empty sequence
  is NaN (numpy divides zero by zero and warns).
\<close>

fun np_min :: "real list \<Rightarrow> py_error + real" where
  "np_min [] =
     Inl (ValueError ''zero-size array to reduction operation minimum which has no identity'')"
| "np_min (v # vs) = Inr (fold min vs v)"

fun np_mean :: "real list \<Rightarrow> pyfloat" where
  "np_mean [] = NaN"
| "np_mean (v # vs) = Fin (sum_list (v # vs) / real (length (v # vs)))"

section \<open>model.py\<close>

definition deg_to_rad :: "real \<Rightarrow> real" where
  "deg_to_rad degrees = degrees * (pi / 180)"

definition rad_to_deg :: "real \<Rightarrow> real" where
  "rad_to_deg radians = radians * (180 / pi)"

definition predict :: "real list \<Rightarrow> real \<Rightarrow> real \<Rightarrow> real \<Rightarrow> real list \<times> real list" where
  "predict t theta_deg M X =
     (let theta_rad = deg_to_rad theta_deg;
          cos_theta = cos theta_rad;
          sin_theta = sin theta_rad;
          exp_term = np_exp (scalar_mul_arr M (np_abs t));
          sin_03t = np_sin (scalar_mul_arr 0.3 t);
          x = arr_add_scalar
                (arr_sub (arr_mul_scalar t cos_theta)
                         (arr_mul_scalar (arr_mul exp_term sin_03t) sin_theta))
                X;
          y = arr_add
                (scalar_add_arr 42 (arr_mul_scalar t sin_theta))
                (arr_mul_scalar (arr_mul exp_term sin_03t) cos_theta)
      in (x, y))"

section \<open>utils.py\<close>

definition validate_bounds :: "real \<Rightarrow> real \<Rightarrow> real \<Rightarrow> bool" where
  "validate_bounds theta_deg M X =
     (let theta_valid = (0 < theta_deg \<and> theta_deg < 50);
          M_valid = (- 0.05 < M \<and> M < 0.05);
          X_valid = (0 < X \<and> X < 100)
      in theta_valid \<and> M_valid \<and> X_valid)"

section \<open>loss.py\<close>

text \<open>
  The loop of \<open>l1_loss\<close> over \<open>zip(x_obs, y_obs)\<close>, with the list \<open>min_distances\<close>
  it appends to. The exception of \<open>np.min\<close> leaves the loop at once.
\<close>

fun min_distances_loop ::
  "real list \<Rightarrow> real list \<Rightarrow> (real \<times> real) list \<Rightarrow> real list \<Rightarrow> py_error + real list" where
  "min_distances_loop x_pred y_pred [] min_distances = Inr min_distances"
| "min_distances_loop x_pred y_pred ((x_o, y_o) # rest) min_distances =
     (let dists = np_sqrt (arr_add (arr_square (arr_sub_scalar x_pred x_o))
                                   (arr_square (arr_sub_scalar y_pred y_o)))
      in case np_min dists of
           Inl e \<Rightarrow> Inl e
         | Inr d \<Rightarrow> min_distances_loop x_pred y_pred rest (min_distances @ [d]))"

text \<open>
  \<open>params\<close> is the array the optimizers pass; unpacking it into three names raises
  ValueError when it does not hold exactly three elements.
\<close>

definition l1_loss :: "real list \<Rightarrow> real list \<Rightarrow> real list \<Rightarrow> real list \<Rightarrow> py_error + pyfloat" where
  "l1_loss params t_samples x_obs y_obs =
     (case params of
        [theta_deg, M, X] \<Rightarrow>
          (let (x_pred, y_pred) = predict t_samples theta_deg M X
           in case min_distances_loop x_pred y_pred (zip x_obs y_obs) [] of
                Inl e \<Rightarrow> Inl e
              | Inr min_distances \<Rightarrow> Inr (np_mean min_distances))
      | _ \<Rightarrow> Inl (ValueError ''wrong number of values to unpack (expected 3)''))"

section \<open>data_loader.py\<close>

text \<open>
  A DataFrame is its number of rows (\<open>len(df)\<close>, the length of its index) and its
  columns in order, each a name and its cells. The cell type is a parameter: a table
  read from a CSV file has cells \<open>'v option\<close>, where \<open>None\<close> is a missing value (what
  \<open>isna\<close> reports); the table given to \<open>fit_params\<close> has real cells.
\<close>

record 'c frame =
  index_len :: nat
  columns :: "(string \<times> 'c list) list"

definition column_names :: "'c frame \<Rightarrow> string list" where
  "column_names df = map fst (columns df)"

text \<open>
  \<open>df[[n1, n2]]\<close> keeps the rows and takes the named columns in the order asked for;
  it raises KeyError for a name that is not a column. \<open>df[n].values\<close> is the array of
  one column.
\<close>

definition select_columns :: "'c frame \<Rightarrow> string list \<Rightarrow> py_error + 'c frame" where
  "select_columns df names =
     (case filter (\<lambda>n. n \<notin> set (column_names df)) names of
        [] \<Rightarrow> Inr (df\<lparr>columns := concat (map (\<lambda>n. filter (\<lambda>c. fst c = n) (columns df)) names)\<rparr>)
      | n # _ \<Rightarrow> Inl (KeyError n))"

definition column_values :: "'c frame \<Rightarrow> string \<Rightarrow> py_error + 'c list" where
  "column_values df n =
     (case map_of (columns df) n of
        None \<Rightarrow> Inl (KeyError n)
      | Some cells \<Rightarrow> Inr cells)"

definition isna_any_any :: "'v option frame \<Rightarrow> bool" where
  "isna_any_any df = list_ex (\<lambda>c. list_ex (\<lambda>v. v = None) (snd c)) (columns df)"

definition digit_char :: "nat \<Rightarrow> char" where
  "digit_char d = ''0123456789'' ! d"

fun show_nat :: "nat \<Rightarrow> string" where
  "show_nat n =
     (if n < 10 then [digit_char n]
      else show_nat (n div 10) @ [digit_char (n mod 10)])"

text \<open>
  \<open>pd.read_csv\<close> is the library's and reads the file system: it is the parameter
  \<open>read_csv\<close>, which raises or returns the parsed table. \<open>load_data\<close> catches
  FileNotFoundError alone; every other exception of \<open>pd.read_csv\<close> (an empty file, a
  line with too many fields, a file that cannot be opened) passes through unchanged.
\<close>

definition load_data ::
  "(string \<Rightarrow> py_error + 'v option frame) \<Rightarrow> string \<Rightarrow> py_error + 'v option frame" where
  "load_data read_csv path =
     (case read_csv path of
        Inl (FileNotFoundError _) \<Rightarrow> Inl (FileNotFoundError (''Data file not found: '' @ path))
      | Inl e \<Rightarrow> Inl e
      | Inr df \<Rightarrow>
          if ''x'' \<notin> set (column_names df) \<or> ''y'' \<notin> set (column_names df)
          then Inl (ValueError ''CSV must contain 'x' and 'y' columns'')
          else if index_len df < 10
          then Inl (ValueError (''Insufficient data: '' @ show_nat (index_len df)
                                @ '' rows (minimum 10 required)''))
          else (case select_columns df [''x'', ''y''] of
                  Inl e \<Rightarrow> Inl e
                | Inr xy \<Rightarrow>
                    if isna_any_any xy then Inl (ValueError ''Data contains NaN values'')
                    else select_columns df [''x'', ''y'']))"

text \<open>
  \<open>np.linspace(start, stop, num)\<close>: \<open>num\<close> evenly spaced values from \<open>start\<close> to
  \<open>stop\<close>, both included; ValueError for a negative \<open>num\<close>.
\<close>

definition np_linspace :: "real \<Rightarrow> real \<Rightarrow> int \<Rightarrow> py_error + real list" where
  "np_linspace start stop num =
     (if num < 0 then Inl (ValueError ''Number of samples must be non-negative'')
      else if num = 1 then Inr [start]
      else Inr (map (\<lambda>i. start + real i * ((stop - start) / real (nat num - 1))) [0..<nat num]))"

definition get_uniform_t_values :: "int \<Rightarrow> real \<Rightarrow> real \<Rightarrow> py_error + real list" where
  "get_uniform_t_values n t_min t_max = np_linspace t_min t_max n"

section \<open>optimizer.py\<close>

text \<open>
  The dictionaries of \<open>fit_params\<close> with the keys \<open>theta_deg\<close>, \<open>M\<close>, \<open>X\<close> are
  records: \<open>bounds\<close> holds a pair (low, high) per key, \<open>initial_guess\<close> a float per key.
  The returned dictionary is the record \<open>fit_result\<close>.
\<close>

record 'a params =
  p_theta_deg :: 'a
  p_M :: 'a
  p_X :: 'a

record fit_result =
  fr_theta_deg :: real
  fr_theta_rad :: real
  fr_M :: real
  fr_X :: real
  fr_l1 :: pyfloat

text \<open>
  What scipy and numpy.random do is not code of the repository. The record \<open>library\<close>
  holds them as parameters of the model:
  \<^item> \<open>np_random_seed\<close>: the state \<open>np.random.seed(seed)\<close> puts the global generator in
    (numpy raises ValueError for a seed outside \<open>0 .. 2^32 - 1\<close>);
  \<^item> \<open>np_random_uniform low high\<close>: one draw from the global generator, returning the
    value and the generator's next state;
  \<^item> \<open>minimize\<close> and \<open>differential_evolution\<close>: functions of the arguments the source
    passes (the loss with its \<open>args\<close> bound, the start, the method, the bounds, the
    options, the seed), returning an OptimizeResult, of which \<open>x\<close> and \<open>fun\<close> are read,
    or raising. Neither reads or writes the global generator: Nelder-Mead draws nothing,
    and \<open>differential_evolution\<close> builds a generator of its own from \<open>seed\<close>.
\<close>

record opt_result =
  res_x :: "real list"
  res_fun :: pyfloat

record minimize_options =
  maxiter :: nat
  xatol :: real
  fatol :: real

record de_options =
  de_maxiter :: nat
  de_atol :: real
  de_tol :: real

type_synonym loss_fn = "real list \<Rightarrow> py_error + pyfloat"

record 'g library =
  np_random_seed :: "int \<Rightarrow> py_error + 'g"
  np_random_uniform :: "real \<Rightarrow> real \<Rightarrow> 'g \<Rightarrow> real \<times> 'g"
  minimize ::
    "loss_fn \<Rightarrow> real list \<Rightarrow> string \<Rightarrow> (real \<times> real) list \<Rightarrow> minimize_options
       \<Rightarrow> py_error + opt_result"
  differential_evolution ::
    "loss_fn \<Rightarrow> (real \<times> real) list \<Rightarrow> int \<Rightarrow> de_options \<Rightarrow> py_error + opt_result"

text \<open>
  What a run does besides returning is its list of events, in program order: the records
  it hands to the logger and its calls of the two optimizers.
\<close>

datatype log_level = INFO | WARNING

datatype log_message =
    Starting_optimization int
  | Restart_new_best int int pyfloat
  | Running_differential_evolution
  | Differential_evolution_new_best pyfloat
  | Optimal_parameters_outside_bounds
  | Optimization_complete real real real pyfloat

datatype event =
    Log log_level log_message
  | Call_minimize "real list"
  | Call_differential_evolution int

text \<open>
  The state of a run of \<open>fit_params\<close>: the global generator of \<open>np.random\<close>, the events
  so far, and the local variables (\<open>st_v\<close> is the local \<open>v\<close>; \<open>st_loss\<close> is \<open>l1_loss\<close>
  with \<open>args=(t_samples, x_obs, y_obs)\<close> bound). A run is still running, or has raised.
\<close>

record 'g fit_state =
  st_rng :: 'g
  st_events :: "event list"
  st_bounds :: "(real \<times> real) params"
  st_scipy_bounds :: "(real \<times> real) list"
  st_initial_guess :: "real params"
  st_loss :: loss_fn
  st_best_result :: "opt_result option"
  st_best_loss :: pyfloat

datatype 'g run = Raised "event list" 'g py_error | Running "'g fit_state"

definition default_bounds :: "(real \<times> real) params" where
  "default_bounds =
     \<lparr>p_theta_deg = (0.1, 49.9), p_M = (- 0.049, 0.049), p_X = (0.1, 99.9)\<rparr>"

definition default_initial_guess :: "real params" where
  "default_initial_guess = \<lparr>p_theta_deg = 25.0, p_M = 0.0, p_X = 50.0\<rparr>"

definition nelder_mead_options :: minimize_options where
  "nelder_mead_options = \<lparr>maxiter = 10000, xatol = 1 / 10 ^ 6, fatol = 1 / 10 ^ 6\<rparr>"

definition global_search_options :: de_options where
  "global_search_options = \<lparr>de_maxiter = 1000, de_atol = 1 / 10 ^ 6, de_tol = 1 / 10 ^ 6\<rparr>"

text \<open>
  Lines 39 to 75 of optimizer.py: the generator is seeded, the defaults are filled in,
  the observed columns are read, the sample grid is made, and the search starts with no
  best result and the loss \<open>float('inf')\<close>. \<open>g\<close> is the state the global generator is
  in when \<open>fit_params\<close> is called.
\<close>

definition fit_setup ::
  "'g library \<Rightarrow> 'g \<Rightarrow> real frame \<Rightarrow> real params option \<Rightarrow> int
     \<Rightarrow> (real \<times> real) params option \<Rightarrow> int \<Rightarrow> int \<Rightarrow> 'g run" where
  "fit_setup L g xy_df initial_guess n_samples bounds n_restarts seed =
     (case np_random_seed L seed of
        Inl e \<Rightarrow> Raised [] g e
      | Inr g0 \<Rightarrow>
          (let bounds = (case bounds of None \<Rightarrow> default_bounds | Some b \<Rightarrow> b)
           in case column_values xy_df ''x'' of
                Inl e \<Rightarrow> Raised [] g0 e
              | Inr x_obs \<Rightarrow>
                  (case column_values xy_df ''y'' of
                     Inl e \<Rightarrow> Raised [] g0 e
                   | Inr y_obs \<Rightarrow>
                       (case get_uniform_t_values n_samples 6.0 60.0 of
                          Inl e \<Rightarrow> Raised [] g0 e
                        | Inr t_samples \<Rightarrow>
                            Running
                              \<lparr>st_rng = g0,
                               st_events = [Log INFO (Starting_optimization n_restarts)],
                               st_bounds = bounds,
                               st_scipy_bounds = [p_theta_deg bounds, p_M bounds, p_X bounds],
                               st_initial_guess =
                                 (case initial_guess of
                                    None \<Rightarrow> default_initial_guess
                                  | Some guess \<Rightarrow> guess),
                               st_loss = (\<lambda>params. l1_loss params t_samples x_obs y_obs),
                               st_best_result = None,
                               st_best_loss = PosInf\<rparr>))))"

text \<open>
  Lines 77 to 104: the loop \<open>for i in range(n_restarts)\<close>, over the indices still to
  run. The three draws of a random start are made in the order theta_deg, M, X, each from
  the state the one before left.
\<close>

fun restart_loop :: "'g library \<Rightarrow> int \<Rightarrow> nat list \<Rightarrow> 'g fit_state \<Rightarrow> 'g run" where
  "restart_loop L n_restarts [] s = Running s"
| "restart_loop L n_restarts (i # rest) s =
     (let (x0, g) =
            (if i = 0
             then ([p_theta_deg (st_initial_guess s), p_M (st_initial_guess s),
                    p_X (st_initial_guess s)], st_rng s)
             else
               (let (u1, g1) = np_random_uniform L (fst (p_theta_deg (st_bounds s)))
                                 (snd (p_theta_deg (st_bounds s))) (st_rng s);
                    (u2, g2) = np_random_uniform L (fst (p_M (st_bounds s)))
                                 (snd (p_M (st_bounds s))) g1;
                    (u3, g3) = np_random_uniform L (fst (p_X (st_bounds s)))
                                 (snd (p_X (st_bounds s))) g2
                in ([u1, u2, u3], g3)));
          s1 = s\<lparr>st_rng := g, st_events := st_events s @ [Call_minimize x0]\<rparr>
      in case minimize L (st_loss s) x0 ''Nelder-Mead'' (st_scipy_bounds s) nelder_mead_options of
           Inl e \<Rightarrow> Raised (st_events s1) (st_rng s1) e
         | Inr result \<Rightarrow>
             restart_loop L n_restarts rest
               (if float_lt (res_fun result) (st_best_loss s1)
                then s1\<lparr>st_best_loss := res_fun result,
                        st_best_result := Some result,
                        st_events := st_events s1 @
                          [Log INFO (Restart_new_best (int i + 1) n_restarts (res_fun result))]\<rparr>
                else s1))"

text \<open>Lines 106 to 123: the pass of differential evolution and its comparison.\<close>

definition global_search :: "'g library \<Rightarrow> int \<Rightarrow> 'g fit_state \<Rightarrow> 'g run" where
  "global_search L seed s =
     (let s1 = s\<lparr>st_events := st_events s @
                  [Log INFO Running_differential_evolution, Call_differential_evolution seed]\<rparr>
      in case differential_evolution L (st_loss s) (st_scipy_bounds s) seed
                global_search_options of
           Inl e \<Rightarrow> Raised (st_events s1) (st_rng s1) e
         | Inr de_result \<Rightarrow>
             Running
               (if float_lt (res_fun de_result) (st_best_loss s1)
                then s1\<lparr>st_best_loss := res_fun de_result,
                        st_best_result := Some de_result,
                        st_events := st_events s1 @
                          [Log INFO (Differential_evolution_new_best (res_fun de_result))]\<rparr>
                else s1))"

text \<open>
  Lines 125 to 143: the best parameters are unpacked (AttributeError when
  \<open>best_result\<close> is still None), checked, and packaged.
\<close>

definition package_result ::
  "'g fit_state \<Rightarrow> event list \<times> 'g \<times> (py_error + fit_result)" where
  "package_result s =
     (case st_best_result s of
        None \<Rightarrow>
          (st_events s, st_rng s, Inl (AttributeError ''NoneType object has no attribute x''))
      | Some best \<Rightarrow>
          (case res_x best of
             [theta_deg, M, X] \<Rightarrow>
               (let ev1 = (if \<not> validate_bounds theta_deg M X
                           then st_events s @ [Log WARNING Optimal_parameters_outside_bounds]
                           else st_events s);
                    theta_rad = deg_to_rad theta_deg;
                    ev2 = ev1 @ [Log INFO (Optimization_complete theta_deg M X (st_best_loss s))]
                in (ev2, st_rng s,
                    Inr \<lparr>fr_theta_deg = theta_deg, fr_theta_rad = theta_rad, fr_M = M,
                         fr_X = X, fr_l1 = st_best_loss s\<rparr>))
           | _ \<Rightarrow>
               (st_events s, st_rng s,
                Inl (ValueError ''wrong number of values to unpack (expected 3)''))))"

text \<open>
  \<open>fit_params\<close> is these blocks in sequence. \<open>fit_params_restarts\<close> is the run up to
  the end of the restart loop, \<open>fit_params_search\<close> the run up to the last comparison;
  \<open>fit_params\<close> returns the events, the final state of the global generator, and the
  result or the exception.
\<close>

definition fit_params_restarts ::
  "'g library \<Rightarrow> 'g \<Rightarrow> real frame \<Rightarrow> real params option \<Rightarrow> int
     \<Rightarrow> (real \<times> real) params option \<Rightarrow> int \<Rightarrow> int \<Rightarrow> 'g run" where
  "fit_params_restarts L g xy_df initial_guess n_samples bounds n_restarts seed =
     (case fit_setup L g xy_df initial_guess n_samples bounds n_restarts seed of
        Raised ev g' e \<Rightarrow> Raised ev g' e
      | Running s \<Rightarrow> restart_loop L n_restarts [0..<nat n_restarts] s)"

definition fit_params_search ::
  "'g library \<Rightarrow> 'g \<Rightarrow> real frame \<Rightarrow> real params option \<Rightarrow> int
     \<Rightarrow> (real \<times> real) params option \<Rightarrow> int \<Rightarrow> int \<Rightarrow> 'g run" where
  "fit_params_search L g xy_df initial_guess n_samples bounds n_restarts seed =
     (case fit_params_restarts L g xy_df initial_guess n_samples bounds n_restarts seed of
        Raised ev g' e \<Rightarrow> Raised ev g' e
      | Running s \<Rightarrow> global_search L seed s)"

definition fit_params ::
  "'g library \<Rightarrow> 'g \<Rightarrow> real frame \<Rightarrow> real params option \<Rightarrow> int
     \<Rightarrow> (real \<times> real) params option \<Rightarrow> int \<Rightarrow> int
     \<Rightarrow> event list \<times> 'g \<times> (py_error + fit_result)" where
  "fit_params L g xy_df initial_guess n_samples bounds n_restarts seed =
     (case fit_params_search L g xy_df initial_guess n_samples bounds n_restarts seed of
        Raised ev g' e \<Rightarrow> (ev, g', Inl e)
      | Running s \<Rightarrow> package_result s)"

section \<open>Reference definitions\<close>

text \<open>
  The notions the specification states the loss with, written independently of the code
  of \<open>l1_loss\<close>: the Euclidean distance of two points, the curve points that \<open>predict\<close>
  gives for the samples, the least distance from a point to these, and the arithmetic
  mean of the least distances over the observed points.
\<close>

definition euclidean_distance :: "real \<times> real \<Rightarrow> real \<times> real \<Rightarrow> real" where
  "euclidean_distance p q = sqrt ((fst p - fst q)\<^sup>2 + (snd p - snd q)\<^sup>2)"

definition curve_points :: "real list \<Rightarrow> real \<Rightarrow> real \<Rightarrow> real \<Rightarrow> (real \<times> real) list" where
  "curve_points ts theta_deg M X = (let (x, y) = predict ts theta_deg M X in zip x y)"

definition nearest_distance :: "real \<times> real \<Rightarrow> (real \<times> real) list \<Rightarrow> real" where
  "nearest_distance p curve = Min (euclidean_distance p ` set curve)"

definition mean_nearest_distance :: "(real \<times> real) list \<Rightarrow> (real \<times> real) list \<Rightarrow> real" where
  "mean_nearest_distance observed curve =
     (\<Sum>p\<leftarrow>observed. nearest_distance p curve) / real (length observed)"

text \<open>
  The conditions under which the specification has \<open>load_data\<close> fail, as predicates of
  what \<open>pd.read_csv\<close> gave for the path; \<open>read_fails_otherwise\<close> is the remaining case,
  an exception of \<open>pd.read_csv\<close> other than FileNotFoundError.
\<close>

definition source_missing :: "py_error + 'c frame \<Rightarrow> bool" where
  "source_missing r = (case r of Inl (FileNotFoundError _) \<Rightarrow> True | _ \<Rightarrow> False)"

definition read_fails_otherwise :: "py_error + 'c frame \<Rightarrow> bool" where
  "read_fails_otherwise r =
     (case r of Inl (FileNotFoundError _) \<Rightarrow> False | Inl _ \<Rightarrow> True | Inr _ \<Rightarrow> False)"

definition lacks_xy_column :: "py_error + 'c frame \<Rightarrow> bool" where
  "lacks_xy_column r =
     (case r of
        Inr df \<Rightarrow> ''x'' \<notin> set (column_names df) \<or> ''y'' \<notin> set (column_names df)
      | Inl _ \<Rightarrow> False)"

definition fewer_than_10_rows :: "py_error + 'c frame \<Rightarrow> bool" where
  "fewer_than_10_rows r = (case r of Inr df \<Rightarrow> index_len df < 10 | Inl _ \<Rightarrow> False)"

definition xy_has_missing_value :: "py_error + 'v option frame \<Rightarrow> bool" where
  "xy_has_missing_value r =
     (case r of
        Inr df \<Rightarrow> list_ex (\<lambda>c. (fst c = ''x'' \<or> fst c = ''y'') \<and> None \<in> set (snd c)) (columns df)
      | Inl _ \<Rightarrow> False)"

text \<open>Two tables for the examples: one with a third column, one too short.\<close>

definition sample_table :: "real option frame" where
  "sample_table =
     \<lparr>index_len = 10,
      columns =
        [(''id'', map Some [0, 1, 2, 3, 4, 5, 6, 7, 8, 9]),
         (''y'', map Some [50, 51, 52, 53, 54, 55, 56, 57, 58, 59]),
         (''x'', map Some [60, 61, 62, 63, 64, 65, 66, 67, 68, 69])]\<rparr>"

definition short_table :: "real option frame" where
  "short_table = \<lparr>index_len = 2, columns = [(''x'', [Some 1, None]), (''y'', [Some 3, Some 4])]\<rparr>"

text \<open>
  The starts of the restarts, as the specification words them. \<open>draw_vector\<close> is one
  random start: three draws, for theta_deg, M and X in this order, each from the state
  the draw before left. \<open>generator_before L b g0 i\<close> is the state of the shared generator
  when restart \<open>i\<close> begins, \<open>g0\<close> being the seeded state: restart 0 draws nothing, every
  later restart draws one vector. \<open>restart_start\<close> is the vector restart \<open>i\<close> starts
  from.
\<close>

definition draw_vector :: "'g library \<Rightarrow> (real \<times> real) params \<Rightarrow> 'g \<Rightarrow> real list \<times> 'g" where
  "draw_vector L b g =
     (let (u1, g1) = np_random_uniform L (fst (p_theta_deg b)) (snd (p_theta_deg b)) g;
          (u2, g2) = np_random_uniform L (fst (p_M b)) (snd (p_M b)) g1;
          (u3, g3) = np_random_uniform L (fst (p_X b)) (snd (p_X b)) g2
      in ([u1, u2, u3], g3))"

fun generator_before :: "'g library \<Rightarrow> (real \<times> real) params \<Rightarrow> 'g \<Rightarrow> nat \<Rightarrow> 'g" where
  "generator_before L b g0 0 = g0"
| "generator_before L b g0 (Suc i) =
     (if i = 0 then g0 else snd (draw_vector L b (generator_before L b g0 i)))"

definition restart_start ::
  "'g library \<Rightarrow> real params \<Rightarrow> (real \<times> real) params \<Rightarrow> 'g \<Rightarrow> nat \<Rightarrow> real list" where
  "restart_start L guess b g0 i =
     (if i = 0 then [p_theta_deg guess, p_M guess, p_X guess]
      else fst (draw_vector L b (generator_before L b g0 i)))"

text \<open>
  What is read off the events of a run: the starts handed to \<open>minimize\<close>, in order, and
  the seeds of the calls of \<open>differential_evolution\<close>.
\<close>

fun minimize_starts :: "event list \<Rightarrow> real list list" where
  "minimize_starts [] = []"
| "minimize_starts (Call_minimize x0 # ev) = x0 # minimize_starts ev"
| "minimize_starts (_ # ev) = minimize_starts ev"

fun global_calls :: "event list \<Rightarrow> int list" where
  "global_calls [] = []"
| "global_calls (Call_differential_evolution seed # ev) = seed # global_calls ev"
| "global_calls (_ # ev) = global_calls ev"

definition run_events :: "'g run \<Rightarrow> event list" where
  "run_events r = (case r of Raised ev g e \<Rightarrow> ev | Running s \<Rightarrow> st_events s)"

text \<open>
  A start lies in the box of the bounds; \<open>uniform_in_range\<close> is what numpy promises of
  \<open>np.random.uniform\<close>, for bounds in order.
\<close>

definition in_box :: "(real \<times> real) params \<Rightarrow> real list \<Rightarrow> bool" where
  "in_box b v =
     (case v of
        [u1, u2, u3] \<Rightarrow>
          fst (p_theta_deg b) \<le> u1 \<and> u1 \<le> snd (p_theta_deg b) \<and>
          fst (p_M b) \<le> u2 \<and> u2 \<le> snd (p_M b) \<and>
          fst (p_X b) \<le> u3 \<and> u3 \<le> snd (p_X b)
      | _ \<Rightarrow> False)"

definition uniform_in_range :: "'g library \<Rightarrow> bool" where
  "uniform_in_range L =
     (\<forall>low high g. low \<le> high \<longrightarrow>
        low \<le> fst (np_random_uniform L low high g) \<and> fst (np_random_uniform L low high g) \<le> high)"

definition ordered_bounds :: "(real \<times> real) params \<Rightarrow> bool" where
  "ordered_bounds b =
     (fst (p_theta_deg b) \<le> snd (p_theta_deg b) \<and> fst (p_M b) \<le> snd (p_M b) \<and>
      fst (p_X b) \<le> snd (p_X b))"

text \<open>
  The winner among candidates computed in the order of the list, as the specification
  words the comparison: the first candidate whose loss is below \<open>float('inf')\<close> and that
  no candidate beats strictly. \<open>unbeaten\<close> is this predicate; \<open>keep_better\<close> is one
  comparison with \<open><\<close>, and \<open>best_state\<close> the pair of variables \<open>best_loss\<close>,
  \<open>best_result\<close> that belongs to a winner; \<open>after_restart\<close> is the state that a restart
  which returned \<open>result\<close> leaves.
\<close>

definition unbeaten :: "opt_result list \<Rightarrow> opt_result \<Rightarrow> bool" where
  "unbeaten rs r \<longleftrightarrow>
     float_lt (res_fun r) PosInf \<and> (\<forall>r'\<in>set rs. \<not> float_lt (res_fun r') (res_fun r))"

definition first_best :: "opt_result list \<Rightarrow> opt_result option" where
  "first_best rs = find (unbeaten rs) rs"

definition keep_better ::
  "pyfloat \<times> opt_result option \<Rightarrow> opt_result \<Rightarrow> pyfloat \<times> opt_result option" where
  "keep_better best r = (if float_lt (res_fun r) (fst best) then (res_fun r, Some r) else best)"

definition best_state :: "opt_result list \<Rightarrow> pyfloat \<times> opt_result option" where
  "best_state rs = (case first_best rs of None \<Rightarrow> (PosInf, None) | Some r \<Rightarrow> (res_fun r, Some r))"

definition after_restart ::
  "'g fit_state \<Rightarrow> 'g \<Rightarrow> real list \<Rightarrow> int \<Rightarrow> nat \<Rightarrow> opt_result \<Rightarrow> 'g fit_state" where
  "after_restart s g x0 n_restarts i result =
     (let s1 = s\<lparr>st_rng := g, st_events := st_events s @ [Call_minimize x0]\<rparr>
      in if float_lt (res_fun result) (st_best_loss s1)
         then s1\<lparr>st_best_loss := res_fun result,
                 st_best_result := Some result,
                 st_events := st_events s1 @
                   [Log INFO (Restart_new_best (int i + 1) n_restarts (res_fun result))]\<rparr>
         else s1)"

text \<open>
  A stand-in for the library, to run the model on concrete inputs: a counter as the
  generator, a \<open>minimize\<close> that returns its start with the loss \<open>\<bar>theta_deg - 20\<bar>\<close>, and
  a \<open>differential_evolution\<close> that returns the low corner of the box with the loss 5.
\<close>

definition stub_library :: "nat library" where
  "stub_library =
     \<lparr>np_random_seed =
        (\<lambda>seed. if 0 \<le> seed \<and> seed < 2 ^ 32 then Inr (nat seed)
                 else Inl (ValueError ''Seed must be between 0 and 2**32 - 1'')),
      np_random_uniform = (\<lambda>low high g. (low + (high - low) * (real (g mod 4) / 4), Suc g)),
      minimize = (\<lambda>loss x0 meth bnds opts. Inr \<lparr>res_x = x0, res_fun = Fin \<bar>hd x0 - 20\<bar>\<rparr>),
      differential_evolution =
        (\<lambda>loss bnds seed opts. Inr \<lparr>res_x = map fst bnds, res_fun = Fin 5\<rparr>)\<rparr>"

definition sample_xy :: "real frame" where
  "sample_xy = \<lparr>index_len = 2, columns = [(''x'', [60, 61]), (''y'', [50, 51])]\<rparr>"

section \<open>The curve model\<close>

lemmas array_defs =
  arr_add_scalar_def arr_sub_def arr_mul_scalar_def arr_mul_def arr_add_def
  scalar_add_arr_def np_exp_def np_sin_def scalar_mul_arr_def np_abs_def

lemma predict_length:
  "length (fst (predict t theta_deg M X)) = length t"
  "length (snd (predict t theta_deg M X)) = length t"
  by (simp_all add: predict_def Let_def array_defs)

lemma predict_nth:
  assumes "i < length t"
  shows "fst (predict t theta_deg M X) ! i =
           t ! i * cos (deg_to_rad theta_deg)
           - exp (M * \<bar>t ! i\<bar>) * sin (0.3 * t ! i) * sin (deg_to_rad theta_deg) + X"
    and "snd (predict t theta_deg M X) ! i =
           42 + t ! i * sin (deg_to_rad theta_deg)
           + exp (M * \<bar>t ! i\<bar>) * sin (0.3 * t ! i) * cos (deg_to_rad theta_deg)"
  using assms by (simp_all add: predict_def Let_def array_defs)

text \<open>
  Within the validation bounds \<open>\<bar>M\<bar> < 0.05\<close>, and for \<open>t\<close> in \<open>[6, 60]\<close>, the
  exponent is at most 3, and \<open>exp 3 \<le> 3 ^ 3\<close>.
\<close>

lemma exp_growth_bound:
  assumes "- 0.05 < M" "M < 0.05" "6 \<le> (u::real)" "u \<le> 60"
  shows "exp (M * \<bar>u\<bar>) \<le> 27"
proof -
  have "M * \<bar>u\<bar> \<le> 3"
  proof -
    have "M * \<bar>u\<bar> \<le> 0.05 * \<bar>u\<bar>" using assms by (intro mult_right_mono) auto
    also have "\<dots> \<le> 3" using assms by simp
    finally show ?thesis .
  qed
  then have "exp (M * \<bar>u\<bar>) \<le> exp 3" by simp
  also have "exp (3::real) = exp 1 ^ 3"
    by (simp flip: exp_of_nat_mult)
  also have "\<dots> \<le> 3 ^ 3" by (intro power_mono exp_le) simp
  finally show ?thesis by simp
qed

lemma osc_term_bound:
  assumes "0 \<le> (e::real)" "e \<le> 27"
  shows "\<bar>e * sin a * sin b\<bar> \<le> 27" "\<bar>e * sin a * cos b\<bar> \<le> 27"
proof -
  have a: "\<bar>sin a\<bar> \<le> 1" "\<bar>sin b\<bar> \<le> 1" "\<bar>cos b\<bar> \<le> 1" by simp_all
  have "\<bar>e * sin a * sin b\<bar> = e * (\<bar>sin a\<bar> * \<bar>sin b\<bar>)" using assms by (simp add: abs_mult)
  also have "\<dots> \<le> 27 * (1 * 1)" using assms a by (intro mult_mono) auto
  finally show "\<bar>e * sin a * sin b\<bar> \<le> 27" by simp
  have "\<bar>e * sin a * cos b\<bar> = e * (\<bar>sin a\<bar> * \<bar>cos b\<bar>)" using assms by (simp add: abs_mult)
  also have "\<dots> \<le> 27 * (1 * 1)" using assms a by (intro mult_mono) auto
  finally show "\<bar>e * sin a * cos b\<bar> \<le> 27" by simp
qed

lemma lin_term_bound:
  assumes "6 \<le> (u::real)" "u \<le> 60"
  shows "\<bar>u * cos b\<bar> \<le> 60" "\<bar>u * sin b\<bar> \<le> 60"
proof -
  have "\<bar>u * cos b\<bar> = \<bar>u\<bar> * \<bar>cos b\<bar>" by (simp add: abs_mult)
  also have "\<dots> \<le> 60 * 1" using assms by (intro mult_mono) auto
  finally show "\<bar>u * cos b\<bar> \<le> 60" by simp
  have "\<bar>u * sin b\<bar> = \<bar>u\<bar> * \<bar>sin b\<bar>" by (simp add: abs_mult)
  also have "\<dots> \<le> 60 * 1" using assms by (intro mult_mono) auto
  finally show "\<bar>u * sin b\<bar> \<le> 60" by simp
qed

lemma predict_bounded:
  assumes v: "validate_bounds theta_deg M X" and i: "i < length t"
    and t: "6 \<le> t ! i" "t ! i \<le> 60"
  shows "\<bar>fst (predict t theta_deg M X) ! i\<bar> \<le> 187"
    and "\<bar>snd (predict t theta_deg M X) ! i\<bar> \<le> 129"
proof -
  from v have M: "- 0.05 < M" "M < 0.05" and X: "0 < X" "X < 100"
    by (simp_all add: validate_bounds_def)
  have e: "0 \<le> exp (M * \<bar>t ! i\<bar>)" "exp (M * \<bar>t ! i\<bar>) \<le> 27"
    using exp_growth_bound [OF M t] by simp_all
  note o = osc_term_bound [OF e] and l = lin_term_bound [OF t]
  show "\<bar>fst (predict t theta_deg M X) ! i\<bar> \<le> 187"
    using o(1) [of "0.3 * t ! i" "deg_to_rad theta_deg"] l(1) [of "deg_to_rad theta_deg"] X
    by (simp add: predict_nth [OF i])
  show "\<bar>snd (predict t theta_deg M X) ! i\<bar> \<le> 129"
    using o(2) [of "0.3 * t ! i" "deg_to_rad theta_deg"] l(2) [of "deg_to_rad theta_deg"]
    by (simp add: predict_nth [OF i])
qed

text \<open>
  Claim C5. For every array \<open>t\<close> and all parameters, \<open>predict\<close> returns two arrays of the
  length of \<open>t\<close>, whose elements are
  \<open>x(t) = t cos \<theta> - exp (M \<bar>t\<bar>) sin (0.3 t) sin \<theta> + X\<close> and
  \<open>y(t) = 42 + t sin \<theta> + exp (M \<bar>t\<bar>) sin (0.3 t) cos \<theta>\<close>, with \<open>\<theta> = theta_deg \<cdot> \<pi> / 180\<close>,
  the angle converted from degrees to radians. \<open>predict\<close> is a function of its arguments and changes nothing. Where the
  parameters pass \<open>validate_bounds\<close> and \<open>t\<close> lies in \<open>[6, 60]\<close>, the outputs are
  finite: with exact arithmetic every \<open>x\<close> lies within 187 of zero and every \<open>y\<close> within
  129, far inside the range of a double.
\<close>

theorem predict_elementwise_finite:
  "length (fst (predict t theta_deg M X)) = length t \<and>
   length (snd (predict t theta_deg M X)) = length t \<and>
   (\<forall>i<length t.
      fst (predict t theta_deg M X) ! i =
        t ! i * cos (theta_deg * pi / 180)
        - exp (M * \<bar>t ! i\<bar>) * sin (0.3 * t ! i) * sin (theta_deg * pi / 180) + X \<and>
      snd (predict t theta_deg M X) ! i =
        42 + t ! i * sin (theta_deg * pi / 180)
        + exp (M * \<bar>t ! i\<bar>) * sin (0.3 * t ! i) * cos (theta_deg * pi / 180)) \<and>
   (validate_bounds theta_deg M X \<longrightarrow>
      (\<forall>i<length t. 6 \<le> t ! i \<and> t ! i \<le> 60 \<longrightarrow>
         \<bar>fst (predict t theta_deg M X) ! i\<bar> \<le> 187 \<and>
         \<bar>snd (predict t theta_deg M X) ! i\<bar> \<le> 129))"
proof (intro conjI allI impI)
  show "length (fst (predict t theta_deg M X)) = length t"
    and "length (snd (predict t theta_deg M X)) = length t"
    by (rule predict_length)+
next
  have rad: "deg_to_rad theta_deg = theta_deg * pi / 180"
    by (simp add: deg_to_rad_def)
  fix i assume i: "i < length t"
  show "fst (predict t theta_deg M X) ! i =
        t ! i * cos (theta_deg * pi / 180)
        - exp (M * \<bar>t ! i\<bar>) * sin (0.3 * t ! i) * sin (theta_deg * pi / 180) + X"
    using predict_nth(1) [OF i, of theta_deg M X] by (simp only: rad)
  show "snd (predict t theta_deg M X) ! i =
        42 + t ! i * sin (theta_deg * pi / 180)
        + exp (M * \<bar>t ! i\<bar>) * sin (0.3 * t ! i) * cos (theta_deg * pi / 180)"
    using predict_nth(2) [OF i, of theta_deg M X] by (simp only: rad)
next
  fix i
  assume "validate_bounds theta_deg M X" "i < length t" "6 \<le> t ! i \<and> t ! i \<le> 60"
  then show "\<bar>fst (predict t theta_deg M X) ! i\<bar> \<le> 187"
    and "\<bar>snd (predict t theta_deg M X) ! i\<bar> \<le> 129"
    by (simp_all add: predict_bounded)
qed

theorem predict_elementwise_finite_witness:
  "validate_bounds 25 (1 / 100) 50 \<and>
   length (fst (predict [6, 60] 25 (1 / 100) 50)) = 2 \<and>
   length (snd (predict [6, 60] 25 (1 / 100) 50)) = 2 \<and>
   \<bar>fst (predict [6, 60] 25 (1 / 100) 50) ! 0\<bar> \<le> 187 \<and>
   \<bar>snd (predict [6, 60] 25 (1 / 100) 50) ! 0\<bar> \<le> 129 \<and>
   \<bar>fst (predict [6, 60] 25 (1 / 100) 50) ! 1\<bar> \<le> 187 \<and>
   \<bar>snd (predict [6, 60] 25 (1 / 100) 50) ! 1\<bar> \<le> 129 \<and>
   fst (predict [10] 90 0 7) ! 0 = 7 - sin 3 \<and>
   snd (predict [10] 90 0 7) ! 0 = 52 \<and>
   fst (predict [10] 180 0 7) ! 0 = - 3 \<and>
   snd (predict [10] 180 0 7) ! 0 = 42 - sin 3"
proof -
  have v: "validate_bounds 25 (1 / 100) 50" by (simp add: validate_bounds_def)
  note p = predict_elementwise_finite [of "[6, 60]" 25 "1 / 100" 50]
  from p have len: "length (fst (predict [6, 60] 25 (1 / 100) 50)) = 2"
    "length (snd (predict [6, 60] 25 (1 / 100) 50)) = 2" by simp_all
  from p v have b: "\<forall>i<length [6, 60 :: real]. 6 \<le> [6, 60 :: real] ! i \<and> [6, 60 :: real] ! i \<le> 60 \<longrightarrow>
         \<bar>fst (predict [6, 60] 25 (1 / 100) 50) ! i\<bar> \<le> 187 \<and>
         \<bar>snd (predict [6, 60] 25 (1 / 100) 50) ! i\<bar> \<le> 129" by blast
  have right: "fst (predict [10] 90 0 7) ! 0 = 7 - sin 3" "snd (predict [10] 90 0 7) ! 0 = 52"
    using predict_elementwise_finite [of "[10]" 90 0 7] by simp_all
  have straight: "fst (predict [10] 180 0 7) ! 0 = - 3" "snd (predict [10] 180 0 7) ! 0 = 42 - sin 3"
    using predict_elementwise_finite [of "[10]" 180 0 7] by simp_all
  from b [rule_format, of 0] b [rule_format, of 1] v len right straight show ?thesis by simp
qed

section \<open>The loss\<close>

lemma dists_eq:
  "np_sqrt (arr_add (arr_square (arr_sub_scalar x_pred x_o))
                    (arr_square (arr_sub_scalar y_pred y_o)))
   = map (euclidean_distance (x_o, y_o)) (zip x_pred y_pred)"
  by (simp add: np_sqrt_def arr_add_def arr_square_def arr_sub_scalar_def
      euclidean_distance_def zip_map_map power2_commute [of x_o] power2_commute [of y_o]
      split_def)

lemma np_min_map:
  assumes "curve \<noteq> []"
  shows "np_min (map (euclidean_distance p) curve) = Inr (nearest_distance p curve)"
proof -
  from assms obtain q qs where c: "curve = q # qs" by (cases curve) auto
  have "fold min (map (euclidean_distance p) qs) (euclidean_distance p q)
        = Min (set (euclidean_distance p q # map (euclidean_distance p) qs))"
    by (rule Min.set_eq_fold [symmetric])
  then show ?thesis by (simp add: c nearest_distance_def)
qed

lemma min_distances_loop_eq:
  assumes "zip x_pred y_pred \<noteq> []"
  shows "min_distances_loop x_pred y_pred observed acc
         = Inr (acc @ map (\<lambda>p. nearest_distance p (zip x_pred y_pred)) observed)"
proof (induction observed arbitrary: acc)
  case Nil
  show ?case by simp
next
  case (Cons p observed)
  obtain x_o y_o where p: "p = (x_o, y_o)" by (cases p)
  show ?case
    by (simp add: p dists_eq np_min_map [OF assms] Cons.IH)
qed

lemma min_distances_loop_empty_curve:
  assumes "zip x_pred y_pred = []" "observed \<noteq> []"
  shows "min_distances_loop x_pred y_pred observed acc
         = Inl (ValueError ''zero-size array to reduction operation minimum which has no identity'')"
proof -
  from assms(2) obtain p rest where o: "observed = p # rest" by (cases observed) auto
  obtain x_o y_o where p: "p = (x_o, y_o)" by (cases p)
  show ?thesis
    unfolding o p
    by (simp only: min_distances_loop.simps dists_eq Let_def assms(1) list.map np_min.simps
        sum.case)
qed

lemma curve_points_zip:
  "curve_points ts theta_deg M X
   = zip (fst (predict ts theta_deg M X)) (snd (predict ts theta_deg M X))"
  by (simp add: curve_points_def split_def Let_def)

lemma curve_points_empty_iff: "curve_points ts theta_deg M X = [] \<longleftrightarrow> ts = []"
proof -
  have "length (curve_points ts theta_deg M X) = length ts"
    by (simp add: curve_points_zip predict_length)
  then show ?thesis by (metis length_0_conv)
qed

lemma zip_nonempty: "xo \<noteq> [] \<Longrightarrow> yo \<noteq> [] \<Longrightarrow> zip xo yo \<noteq> []"
  by (cases xo; cases yo) auto

lemma l1_loss_unfold:
  "l1_loss [theta_deg, M, X] ts xo yo =
     (case min_distances_loop (fst (predict ts theta_deg M X)) (snd (predict ts theta_deg M X))
             (zip xo yo) [] of
        Inl e \<Rightarrow> Inl e
      | Inr min_distances \<Rightarrow> Inr (np_mean min_distances))"
  by (simp add: l1_loss_def split_def Let_def)

lemma np_mean_map:
  assumes "observed \<noteq> []"
  shows "np_mean (map f observed) = Fin ((\<Sum>p\<leftarrow>observed. f p) / real (length observed))"
proof -
  from assms obtain p rest where o: "observed = p # rest" by (cases observed) auto
  show ?thesis by (simp add: o)
qed

lemma l1_loss_minima:
  assumes "ts \<noteq> []"
  shows "l1_loss [theta_deg, M, X] ts xo yo
         = Inr (np_mean (map (\<lambda>p. nearest_distance p (curve_points ts theta_deg M X))
                           (zip xo yo)))"
proof -
  have "zip (fst (predict ts theta_deg M X)) (snd (predict ts theta_deg M X)) \<noteq> []"
    using assms curve_points_empty_iff [of ts theta_deg M X] by (simp add: curve_points_zip)
  then show ?thesis
    by (simp add: l1_loss_unfold min_distances_loop_eq curve_points_zip)
qed

lemma curve_points_origin: "curve_points [0] 0 0 0 = [(0, 42)]"
  by (simp add: curve_points_zip predict_def Let_def array_defs deg_to_rad_def)

text \<open>
  Claim C1. For every parameter vector \<open>(theta_deg, M, X)\<close>, every non-empty array of
  samples and every non-empty set of observed points, \<open>l1_loss\<close> returns the arithmetic
  mean, over the observed points, of the least Euclidean distance from the observed point
  to the curve points that \<open>predict\<close> gives for the samples: a minimum over all pairs of
  an observed point and a sampled point, with no projection onto the segments between.
\<close>

theorem l1_loss_mean_of_minima:
  assumes "ts \<noteq> []" and "xo \<noteq> []" and "yo \<noteq> []"
  shows "l1_loss [theta_deg, M, X] ts xo yo
         = Inr (Fin (mean_nearest_distance (zip xo yo) (curve_points ts theta_deg M X)))"
proof -
  have obs: "zip xo yo \<noteq> []"
    using assms(2,3) by (rule zip_nonempty)
  show ?thesis
    by (simp add: l1_loss_minima [OF assms(1)] np_mean_map [OF obs] mean_nearest_distance_def)
qed

theorem l1_loss_mean_of_minima_witness:
  "[0 :: real] \<noteq> [] \<and> [3, 0 :: real] \<noteq> [] \<and> [46, 42 :: real] \<noteq> [] \<and>
   l1_loss [0, 0, 0] [0] [3, 0] [46, 42] = Inr (Fin (5 / 2))"
proof -
  have "mean_nearest_distance (zip [3, 0] [46, 42]) (curve_points [0] 0 0 0) = 5 / 2"
    by (simp add: curve_points_origin mean_nearest_distance_def nearest_distance_def
        euclidean_distance_def)
  with l1_loss_mean_of_minima [of "[0]" "[3, 0]" "[46, 42]" 0 0 0] show ?thesis by simp
qed

lemma nearest_distance_nonneg:
  assumes "curve \<noteq> []"
  shows "0 \<le> nearest_distance p curve"
  unfolding nearest_distance_def using assms
  by (subst Min_ge_iff) (auto simp: euclidean_distance_def)

lemma nearest_distance_zero:
  assumes "p \<in> set curve"
  shows "nearest_distance p curve = 0"
proof -
  have ne: "curve \<noteq> []" using assms by auto
  have "euclidean_distance p p = 0" by (simp add: euclidean_distance_def)
  then have "0 \<in> euclidean_distance p ` set curve" using assms by (metis imageI)
  then have "nearest_distance p curve \<le> 0"
    unfolding nearest_distance_def by (intro Min_le) auto
  with nearest_distance_nonneg [OF ne, of p] show ?thesis by simp
qed

lemma mean_nearest_nonneg:
  assumes "curve \<noteq> []"
  shows "0 \<le> mean_nearest_distance observed curve"
  unfolding mean_nearest_distance_def
  by (intro divide_nonneg_nonneg sum_list_nonneg) (auto simp: nearest_distance_nonneg [OF assms])

lemma mean_nearest_zero:
  assumes "\<forall>p\<in>set observed. p \<in> set curve"
  shows "mean_nearest_distance observed curve = 0"
proof -
  have "map (\<lambda>p. nearest_distance p curve) observed = map (\<lambda>p. 0) observed"
    using assms by (intro map_cong) (auto simp: nearest_distance_zero)
  then have "(\<Sum>p\<leftarrow>observed. nearest_distance p curve) = (\<Sum>p\<leftarrow>observed. 0)"
    by (simp only:)
  then show ?thesis by (simp add: mean_nearest_distance_def del: map_eq_conv)
qed

text \<open>
  Claim C6. For every non-empty array of samples and every non-empty set of observed
  points, \<open>l1_loss\<close> returns a number that is not negative, and it returns exactly 0
  whenever every observed point is one of the curve points predicted at the samples.
\<close>

theorem l1_loss_nonneg_zero_on_curve:
  assumes "ts \<noteq> []" and "xo \<noteq> []" and "yo \<noteq> []"
  shows "\<exists>v. l1_loss [theta_deg, M, X] ts xo yo = Inr (Fin v) \<and> 0 \<le> v \<and>
           ((\<forall>p\<in>set (zip xo yo). p \<in> set (curve_points ts theta_deg M X)) \<longrightarrow> v = 0)"
proof -
  let ?curve = "curve_points ts theta_deg M X"
  let ?v = "mean_nearest_distance (zip xo yo) ?curve"
  have obs: "zip xo yo \<noteq> []"
    using assms(2,3) by (rule zip_nonempty)
  have curve: "?curve \<noteq> []"
    using assms(1) by (simp add: curve_points_empty_iff)
  have "l1_loss [theta_deg, M, X] ts xo yo = Inr (Fin ?v)"
    by (simp add: l1_loss_minima [OF assms(1)] np_mean_map [OF obs] mean_nearest_distance_def)
  moreover have "0 \<le> ?v"
    using curve by (rule mean_nearest_nonneg)
  moreover have "(\<forall>p\<in>set (zip xo yo). p \<in> set ?curve) \<longrightarrow> ?v = 0"
    by (simp add: mean_nearest_zero)
  ultimately show ?thesis by blast
qed

theorem l1_loss_nonneg_zero_on_curve_witness:
  "[0 :: real] \<noteq> [] \<and> [0, 0 :: real] \<noteq> [] \<and> [42, 42 :: real] \<noteq> [] \<and>
   l1_loss [0, 0, 0] [0] [0, 0] [42, 42] = Inr (Fin 0)"
proof -
  from l1_loss_nonneg_zero_on_curve [of "[0]" "[0, 0]" "[42, 42]" 0 0 0]
  obtain v where v: "l1_loss [0, 0, 0] [0] [0, 0] [42, 42] = Inr (Fin v)"
    and z: "(\<forall>p\<in>set (zip [0, 0] [42, 42]). p \<in> set (curve_points [0] 0 0 0)) \<longrightarrow> v = 0"
    by auto
  from z have "v = 0" by (simp add: curve_points_origin)
  with v show ?thesis by simp
qed

text \<open>
  Claim C7, as amended. When \<open>l1_loss\<close> is called with an empty array of samples and at
  least one observed point, it returns no value, neither NaN nor a number: the array of
  distances of the first observed point is empty, and \<open>np.min\<close> of it raises ValueError.
\<close>

theorem l1_loss_empty_samples_raises:
  assumes "xo \<noteq> []" and "yo \<noteq> []"
  shows "l1_loss [theta_deg, M, X] [] xo yo
         = Inl (ValueError ''zero-size array to reduction operation minimum which has no identity'')"
proof -
  have e: "zip (fst (predict [] theta_deg M X)) (snd (predict [] theta_deg M X)) = []"
    using curve_points_empty_iff [of "[]" theta_deg M X] by (simp only: curve_points_zip)
  have o: "zip xo yo \<noteq> []"
    using assms by (rule zip_nonempty)
  show ?thesis
    by (simp only: l1_loss_unfold min_distances_loop_empty_curve [OF e o] sum.case)
qed

theorem l1_loss_empty_samples_raises_witness:
  "[1 :: real] \<noteq> [] \<and> [2 :: real] \<noteq> [] \<and>
   l1_loss [25, 0, 50] [] [1] [2]
     = Inl (ValueError ''zero-size array to reduction operation minimum which has no identity'')"
  using l1_loss_empty_samples_raises [of "[1]" "[2]" 25 0 50] by simp

text \<open>
  The claim as it was stated, that the call returns NaN, fails at the samples \<open>[]\<close> and
  the one observed point \<open>(1, 2)\<close>.
\<close>

theorem l1_loss_empty_samples_not_nan:
  "l1_loss [25, 0, 50] [] [1] [2] \<noteq> Inr NaN"
proof -
  have "zip (fst (predict [] 25 0 50)) (snd (predict [] 25 0 50)) = []"
    by (simp add: predict_def Let_def array_defs)
  then have "min_distances_loop (fst (predict [] 25 0 50)) (snd (predict [] 25 0 50))
               (zip [1] [2]) []
             = Inl (ValueError ''zero-size array to reduction operation minimum which has no identity'')"
    by (rule min_distances_loop_empty_curve) simp
  then show ?thesis by (simp only: l1_loss_unfold sum.case) simp
qed

text \<open>NaN is what \<open>l1_loss\<close> returns when there is no observed point.\<close>

lemma l1_loss_no_observed:
  "l1_loss [theta_deg, M, X] ts [] yo = Inr NaN"
  by (simp add: l1_loss_unfold)

section \<open>Loading the data\<close>

lemma select_xy_present:
  assumes "''x'' \<in> set (column_names df)" "''y'' \<in> set (column_names df)"
  shows "select_columns df [''x'', ''y''] =
    Inr (df\<lparr>columns := filter (\<lambda>c. fst c = ''x'') (columns df) @ filter (\<lambda>c. fst c = ''y'') (columns df)\<rparr>)"
  using assms by (simp add: select_columns_def)

lemma isna_selected:
  "isna_any_any (df\<lparr>columns := filter (\<lambda>c. fst c = ''x'') (columns df) @ filter (\<lambda>c. fst c = ''y'') (columns df)\<rparr>)
   = xy_has_missing_value (Inr df)"
  by (auto simp: isna_any_any_def xy_has_missing_value_def list_ex_iff)

lemma load_data_read_error:
  assumes "read_csv path = Inl e"
  shows "load_data read_csv path =
           (if source_missing (read_csv path)
            then Inl (FileNotFoundError (''Data file not found: '' @ path)) else Inl e)"
  using assms by (cases e) (simp_all add: load_data_def source_missing_def)

lemma load_data_table:
  assumes "read_csv path = Inr df"
  shows "load_data read_csv path =
     (if lacks_xy_column (Inr df) then Inl (ValueError ''CSV must contain 'x' and 'y' columns'')
      else if fewer_than_10_rows (Inr df)
      then Inl (ValueError (''Insufficient data: '' @ show_nat (index_len df)
                                @ '' rows (minimum 10 required)''))
      else if xy_has_missing_value (Inr df) then Inl (ValueError ''Data contains NaN values'')
      else Inr (df\<lparr>columns := filter (\<lambda>c. fst c = ''x'') (columns df) @ filter (\<lambda>c. fst c = ''y'') (columns df)\<rparr>))"
proof (cases "''x'' \<in> set (column_names df) \<and> ''y'' \<in> set (column_names df)")
  case True
  then show ?thesis
    using isna_selected [of df]
    by (simp add: load_data_def assms lacks_xy_column_def fewer_than_10_rows_def
        select_xy_present)
next
  case False
  then show ?thesis
    by (auto simp add: load_data_def assms lacks_xy_column_def)
qed

lemma filter_unique_column:
  assumes "distinct (map fst cs)" "map_of cs k = Some v"
  shows "filter (\<lambda>c. fst c = k) cs = [(k, v)]"
  using assms
proof (induction cs)
  case Nil
  then show ?case by simp
next
  case (Cons c cs)
  show ?case
  proof (cases "fst c = k")
    case True
    with Cons.prems have "snd c = v" "k \<notin> fst ` set cs" by (auto split: if_splits)
    then have "filter (\<lambda>c. fst c = k) cs = []" by (auto simp: filter_empty_conv)
    with True \<open>snd c = v\<close> show ?thesis by (cases c) simp
  next
    case False
    with Cons show ?thesis by (auto split: if_splits)
  qed
qed

text \<open>
  Claim C9, as amended. \<open>load_data\<close> raises exactly when the source file is missing, or
  \<open>pd.read_csv\<close> raises any other exception (an unparsable or unreadable file: the
  exception passes through unchanged), or the table lacks an \<open>x\<close> or \<open>y\<close> column, or it
  has fewer than 10 rows, or an \<open>x\<close> or \<open>y\<close> column holds a missing value; otherwise it
  returns the data. The four named conditions, checked in this order, raise four errors
  that differ from each other: FileNotFoundError with the path, and ValueError with three
  different messages. \<open>load_data\<close> calls nothing of the optimizer.
\<close>

theorem load_data_raises_iff:
  "(isl (load_data read_csv path) \<longleftrightarrow>
      source_missing (read_csv path) \<or> read_fails_otherwise (read_csv path) \<or>
      lacks_xy_column (read_csv path) \<or> fewer_than_10_rows (read_csv path) \<or>
      xy_has_missing_value (read_csv path)) \<and>
   (source_missing (read_csv path) \<longrightarrow>
      load_data read_csv path = Inl (FileNotFoundError (''Data file not found: '' @ path))) \<and>
   (read_fails_otherwise (read_csv path) \<longrightarrow> load_data read_csv path = read_csv path) \<and>
   (lacks_xy_column (read_csv path) \<longrightarrow>
      load_data read_csv path = Inl (ValueError ''CSV must contain 'x' and 'y' columns'')) \<and>
   (\<forall>df. read_csv path = Inr df \<and> \<not> lacks_xy_column (read_csv path) \<and> index_len df < 10 \<longrightarrow>
      load_data read_csv path =
        Inl (ValueError (''Insufficient data: '' @ show_nat (index_len df)
                         @ '' rows (minimum 10 required)''))) \<and>
   (\<not> lacks_xy_column (read_csv path) \<and> \<not> fewer_than_10_rows (read_csv path) \<and>
    xy_has_missing_value (read_csv path) \<longrightarrow>
      load_data read_csv path = Inl (ValueError ''Data contains NaN values'')) \<and>
   (\<forall>n. ''CSV must contain 'x' and 'y' columns''
          \<noteq> ''Insufficient data: '' @ show_nat n @ '' rows (minimum 10 required)'' \<and>
        ''Insufficient data: '' @ show_nat n @ '' rows (minimum 10 required)''
          \<noteq> ''Data contains NaN values'') \<and>
   ''CSV must contain 'x' and 'y' columns'' \<noteq> ''Data contains NaN values''"
proof (cases "read_csv path")
  case (Inl e)
  have "load_data read_csv path =
           (if source_missing (read_csv path)
            then Inl (FileNotFoundError (''Data file not found: '' @ path)) else Inl e)"
    using Inl by (rule load_data_read_error)
  moreover have "source_missing (Inl e :: py_error + 'a option frame) \<or> read_fails_otherwise (Inl e :: py_error + 'a option frame)"
    "\<not> (source_missing (Inl e :: py_error + 'a option frame) \<and> read_fails_otherwise (Inl e :: py_error + 'a option frame))"
    by (cases e; simp add: source_missing_def read_fails_otherwise_def)+
  ultimately show ?thesis
    using Inl
    by (auto simp: lacks_xy_column_def fewer_than_10_rows_def xy_has_missing_value_def)
next
  case (Inr df)
  note t = load_data_table [of read_csv path df, OF Inr]
  have n: "\<not> source_missing (Inr df)" "\<not> read_fails_otherwise (Inr df)"
    by (simp_all add: source_missing_def read_fails_otherwise_def)
  have f: "fewer_than_10_rows (Inr df) \<longleftrightarrow> index_len df < 10"
    by (simp add: fewer_than_10_rows_def)
  show ?thesis
    unfolding Inr t using n by (simp add: f)
qed

theorem load_data_raises_iff_witness:
  "load_data (\<lambda>p. Inr short_table) ''data/xy_data.csv''
     = Inl (ValueError ''Insufficient data: 2 rows (minimum 10 required)'') \<and>
   load_data (\<lambda>p. Inl (FileNotFoundError ''No such file or directory'')
                :: py_error + real option frame) ''data/xy_data.csv''
     = Inl (FileNotFoundError ''Data file not found: data/xy_data.csv'')"
proof -
  have l: "\<not> lacks_xy_column (Inr short_table)"
    by (simp add: lacks_xy_column_def short_table_def column_names_def)
  have i: "index_len short_table = 2" by (simp add: short_table_def)
  have s: "show_nat 2 = ''2''" by (simp add: digit_char_def)
  from load_data_raises_iff [of "\<lambda>p. Inr short_table" "''data/xy_data.csv''"] l i
  have "load_data (\<lambda>p. Inr short_table) ''data/xy_data.csv'' =
        Inl (ValueError (''Insufficient data: '' @ show_nat (index_len short_table)
                         @ '' rows (minimum 10 required)''))"
    by simp
  then have short: "load_data (\<lambda>p. Inr short_table) ''data/xy_data.csv''
     = Inl (ValueError ''Insufficient data: 2 rows (minimum 10 required)'')"
    by (simp add: i s digit_char_def)
  have m: "source_missing (Inl (FileNotFoundError ''No such file or directory'')
                            :: py_error + real option frame)"
    by (simp add: source_missing_def)
  from load_data_raises_iff
         [of "\<lambda>p. Inl (FileNotFoundError ''No such file or directory'')
                 :: py_error + real option frame" "''data/xy_data.csv''"] m
  have "load_data (\<lambda>p. Inl (FileNotFoundError ''No such file or directory'')
                :: py_error + real option frame) ''data/xy_data.csv''
     = Inl (FileNotFoundError (''Data file not found: '' @ ''data/xy_data.csv''))"
    by blast
  with short show ?thesis by simp
qed

text \<open>
  The claim as it was stated, that \<open>load_data\<close> raises only under the four named
  conditions, fails for a file that exists and that \<open>pd.read_csv\<close> cannot parse, such as
  a table with the header \<open>x,y\<close> and a line of three fields: the ParserError of pandas
  (a ValueError) is not caught.
\<close>

theorem load_data_unparsable_source:
  "isl (load_data (\<lambda>p. Inl (ValueError ''Error tokenizing data. C error: Expected 2 fields in line 3, saw 3''))
          ''data/xy_data.csv'' :: py_error + real option frame) \<and>
   \<not> (source_missing (Inl (ValueError ''Error tokenizing data. C error: Expected 2 fields in line 3, saw 3'') :: py_error + real option frame) \<or>
      lacks_xy_column (Inl (ValueError ''Error tokenizing data. C error: Expected 2 fields in line 3, saw 3'') :: py_error + real option frame) \<or>
      fewer_than_10_rows (Inl (ValueError ''Error tokenizing data. C error: Expected 2 fields in line 3, saw 3'') :: py_error + real option frame) \<or>
      xy_has_missing_value (Inl (ValueError ''Error tokenizing data. C error: Expected 2 fields in line 3, saw 3'') :: py_error + real option frame))"
  by (simp add: load_data_def source_missing_def lacks_xy_column_def fewer_than_10_rows_def
      xy_has_missing_value_def)

text \<open>
  Claim C10. On every successful call \<open>load_data\<close> returns the source table restricted to
  its columns named \<open>x\<close> and \<open>y\<close>, in this order: the number of rows and the cells of
  the columns kept, in their order, are the source's, and every other column is dropped
  without an error. Column names are distinct in a table that \<open>pd.read_csv\<close> returns (it
  renames a repeated name), and then the result has exactly the two columns \<open>x\<close> and
  \<open>y\<close>.
\<close>

theorem load_data_returns_xy:
  assumes "load_data read_csv path = Inr out"
  shows "\<exists>df. read_csv path = Inr df \<and>
           out = df\<lparr>columns := filter (\<lambda>c. fst c = ''x'') (columns df)
                                 @ filter (\<lambda>c. fst c = ''y'') (columns df)\<rparr> \<and>
           index_len out = index_len df \<and>
           (distinct (column_names df) \<longrightarrow>
              (\<exists>cx cy. map_of (columns df) ''x'' = Some cx \<and> map_of (columns df) ''y'' = Some cy \<and>
                       columns out = [(''x'', cx), (''y'', cy)]))"
proof (cases "read_csv path")
  case (Inl e)
  then have "isl (load_data read_csv path)"
    by (simp add: load_data_read_error)
  with assms show ?thesis by simp
next
  case (Inr df)
  let ?sel = "filter (\<lambda>c. fst c = ''x'') (columns df) @ filter (\<lambda>c. fst c = ''y'') (columns df)"
  from assms have ok: "\<not> lacks_xy_column (Inr df)" and out: "out = df\<lparr>columns := ?sel\<rparr>"
    unfolding load_data_table [of read_csv path df, OF Inr] by (auto split: if_splits)
  have "\<exists>cx cy. map_of (columns df) ''x'' = Some cx \<and> map_of (columns df) ''y'' = Some cy \<and>
                columns out = [(''x'', cx), (''y'', cy)]" if d: "distinct (column_names df)"
  proof -
    from ok obtain cx cy where x: "map_of (columns df) ''x'' = Some cx"
      and y: "map_of (columns df) ''y'' = Some cy"
      by (auto simp: lacks_xy_column_def column_names_def map_of_eq_None_iff [symmetric]
          simp del: map_of_eq_None_iff)
    from d have d': "distinct (map fst (columns df))" by (simp add: column_names_def)
    show ?thesis
      using filter_unique_column [OF d' x] filter_unique_column [OF d' y] x y
      by (simp add: out)
  qed
  with Inr out show ?thesis by simp
qed

theorem load_data_returns_xy_witness:
  "load_data (\<lambda>p. Inr sample_table) ''data/xy_data.csv''
   = Inr \<lparr>index_len = 10,
          columns = [(''x'', map Some [60, 61, 62, 63, 64, 65, 66, 67, 68, 69]),
                     (''y'', map Some [50, 51, 52, 53, 54, 55, 56, 57, 58, 59])]\<rparr>"
proof -
  have ok: "load_data (\<lambda>p. Inr sample_table) ''data/xy_data.csv''
            = Inr (sample_table\<lparr>columns := filter (\<lambda>c. fst c = ''x'') (columns sample_table)
                                 @ filter (\<lambda>c. fst c = ''y'') (columns sample_table)\<rparr>)"
    by (simp add: load_data_def sample_table_def column_names_def select_columns_def
        isna_any_any_def)
  from load_data_returns_xy [OF ok]
  have "distinct (column_names sample_table) \<longrightarrow>
        (\<exists>cx cy. map_of (columns sample_table) ''x'' = Some cx \<and>
                 map_of (columns sample_table) ''y'' = Some cy \<and>
                 columns (sample_table\<lparr>columns := filter (\<lambda>c. fst c = ''x'') (columns sample_table)
                                 @ filter (\<lambda>c. fst c = ''y'') (columns sample_table)\<rparr>)
                   = [(''x'', cx), (''y'', cy)])"
    by simp
  then show ?thesis
    unfolding ok by (simp add: sample_table_def column_names_def)
qed

section \<open>The optimizer\<close>

subsection \<open>The restart loop\<close>

lemma minimize_starts_append:
  "minimize_starts (a @ b) = minimize_starts a @ minimize_starts b"
  by (induction a rule: minimize_starts.induct) simp_all

lemma global_calls_append:
  "global_calls (a @ b) = global_calls a @ global_calls b"
  by (induction a rule: global_calls.induct) simp_all

lemma restart_loop_step:
  assumes "st_rng s = generator_before L (st_bounds s) g0 i"
  shows "restart_loop L n (i # rest) s =
     (case minimize L (st_loss s) (restart_start L (st_initial_guess s) (st_bounds s) g0 i)
             ''Nelder-Mead'' (st_scipy_bounds s) nelder_mead_options of
        Inl e \<Rightarrow>
          Raised (st_events s @
                  [Call_minimize (restart_start L (st_initial_guess s) (st_bounds s) g0 i)])
            (generator_before L (st_bounds s) g0 (Suc i)) e
      | Inr result \<Rightarrow>
          restart_loop L n rest
            (after_restart s (generator_before L (st_bounds s) g0 (Suc i))
               (restart_start L (st_initial_guess s) (st_bounds s) g0 i) n i result))"
proof (cases "i = 0")
  case True
  with assms have "generator_before L (st_bounds s) g0 (Suc i) = st_rng s" by simp
  then show ?thesis
    using True by (simp add: restart_start_def after_restart_def Let_def split: sum.split)
next
  case False
  then have "generator_before L (st_bounds s) g0 (Suc i)
             = snd (draw_vector L (st_bounds s) (st_rng s))"
    using assms by simp
  then show ?thesis
    using False assms
    by (simp add: restart_start_def after_restart_def Let_def draw_vector_def split_def
        split: sum.split)
qed

lemma after_restart_fields:
  "st_rng (after_restart s g x0 n i result) = g"
  "st_bounds (after_restart s g x0 n i result) = st_bounds s"
  "st_initial_guess (after_restart s g x0 n i result) = st_initial_guess s"
  "st_loss (after_restart s g x0 n i result) = st_loss s"
  "st_scipy_bounds (after_restart s g x0 n i result) = st_scipy_bounds s"
  "(st_best_loss (after_restart s g x0 n i result),
    st_best_result (after_restart s g x0 n i result))
   = keep_better (st_best_loss s, st_best_result s) result"
  "minimize_starts (st_events (after_restart s g x0 n i result))
   = minimize_starts (st_events s) @ [x0]"
  "global_calls (st_events (after_restart s g x0 n i result)) = global_calls (st_events s)"
  by (simp_all add: after_restart_def Let_def keep_better_def minimize_starts_append
      global_calls_append)

lemma restart_loop_running:
  assumes "restart_loop L n [i..<m] s = Running s1"
    and "st_rng s = generator_before L (st_bounds s) g0 i"
    and "i \<le> m"
  shows "\<exists>rs. map Inr rs =
               map (\<lambda>j. minimize L (st_loss s)
                           (restart_start L (st_initial_guess s) (st_bounds s) g0 j)
                           ''Nelder-Mead'' (st_scipy_bounds s) nelder_mead_options) [i..<m] \<and>
              (st_best_loss s1, st_best_result s1)
                = foldl keep_better (st_best_loss s, st_best_result s) rs \<and>
              st_rng s1 = generator_before L (st_bounds s) g0 m \<and>
              minimize_starts (st_events s1) =
                minimize_starts (st_events s) @
                map (restart_start L (st_initial_guess s) (st_bounds s) g0) [i..<m] \<and>
              global_calls (st_events s1) = global_calls (st_events s) \<and>
              st_bounds s1 = st_bounds s \<and> st_initial_guess s1 = st_initial_guess s \<and>
              st_loss s1 = st_loss s \<and> st_scipy_bounds s1 = st_scipy_bounds s"
  using assms
proof (induction "m - i" arbitrary: i s)
  case 0
  then have "i = m" by simp
  with "0.prems" show ?case by (intro exI [of _ "[]"]) simp
next
  case (Suc k)
  then have lt: "i < m" by simp
  then have upt: "[i..<m] = i # [Suc i..<m]" by (rule upt_conv_Cons)
  let ?x0 = "restart_start L (st_initial_guess s) (st_bounds s) g0 i"
  let ?call = "minimize L (st_loss s) ?x0 ''Nelder-Mead'' (st_scipy_bounds s) nelder_mead_options"
  note step = restart_loop_step [OF Suc.prems(2), of n "[Suc i..<m]"]
  from Suc.prems(1) obtain result where res: "?call = Inr result"
    unfolding upt step by (cases ?call) simp_all
  define s' where
    "s' = after_restart s (generator_before L (st_bounds s) g0 (Suc i)) ?x0 n i result"
  note f = after_restart_fields [of s "generator_before L (st_bounds s) g0 (Suc i)" ?x0 n i result,
      folded s'_def]
  have run: "restart_loop L n [Suc i..<m] s' = Running s1"
    using Suc.prems(1) unfolding upt step res s'_def by simp
  have rng: "st_rng s' = generator_before L (st_bounds s') g0 (Suc i)"
    by (simp only: f)
  have k: "k = m - Suc i" using Suc.hyps(2) by simp
  from Suc.hyps(1) [OF k run rng] lt
  obtain rs where rs: "map Inr rs =
               map (\<lambda>j. minimize L (st_loss s')
                           (restart_start L (st_initial_guess s') (st_bounds s') g0 j)
                           ''Nelder-Mead'' (st_scipy_bounds s') nelder_mead_options) [Suc i..<m]"
    and best: "(st_best_loss s1, st_best_result s1)
                = foldl keep_better (st_best_loss s', st_best_result s') rs"
    and rest: "st_rng s1 = generator_before L (st_bounds s') g0 m"
      "minimize_starts (st_events s1) =
                minimize_starts (st_events s') @
                map (restart_start L (st_initial_guess s') (st_bounds s') g0) [Suc i..<m]"
      "global_calls (st_events s1) = global_calls (st_events s')"
      "st_bounds s1 = st_bounds s'" "st_initial_guess s1 = st_initial_guess s'"
      "st_loss s1 = st_loss s'" "st_scipy_bounds s1 = st_scipy_bounds s'"
    by auto
  show ?case
  proof (intro exI [of _ "result # rs"] conjI)
    show "map Inr (result # rs) =
               map (\<lambda>j. minimize L (st_loss s)
                           (restart_start L (st_initial_guess s) (st_bounds s) g0 j)
                           ''Nelder-Mead'' (st_scipy_bounds s) nelder_mead_options) [i..<m]"
      using rs res by (simp add: upt f)
    show "(st_best_loss s1, st_best_result s1)
                = foldl keep_better (st_best_loss s, st_best_result s) (result # rs)"
      using best by (simp add: f)
    show "st_rng s1 = generator_before L (st_bounds s) g0 m"
      using rest(1) by (simp add: f)
    show "minimize_starts (st_events s1) =
                minimize_starts (st_events s) @
                map (restart_start L (st_initial_guess s) (st_bounds s) g0) [i..<m]"
      using rest(2) by (simp add: f upt)
    show "global_calls (st_events s1) = global_calls (st_events s)"
      using rest(3) by (simp add: f)
  qed (simp_all add: rest f)
qed

lemma restart_loop_raised:
  assumes "restart_loop L n [i..<m] s = Raised ev h e"
    and "st_rng s = generator_before L (st_bounds s) g0 i"
  shows "\<exists>k. i \<le> k \<and> k < m \<and>
             minimize_starts ev =
               minimize_starts (st_events s) @
               map (restart_start L (st_initial_guess s) (st_bounds s) g0) [i..<Suc k]"
  using assms
proof (induction "m - i" arbitrary: i s)
  case 0
  then have "[i..<m] = []" by simp
  with "0.prems"(1) show ?case by simp
next
  case (Suc k)
  then have lt: "i < m" by simp
  then have upt: "[i..<m] = i # [Suc i..<m]" by (rule upt_conv_Cons)
  let ?x0 = "restart_start L (st_initial_guess s) (st_bounds s) g0 i"
  let ?call = "minimize L (st_loss s) ?x0 ''Nelder-Mead'' (st_scipy_bounds s) nelder_mead_options"
  note step = restart_loop_step [OF Suc.prems(2), of n "[Suc i..<m]"]
  show ?case
  proof (cases ?call)
    case (Inl e')
    with Suc.prems(1) have "ev = st_events s @ [Call_minimize ?x0]"
      unfolding upt step by simp
    then have "minimize_starts ev = minimize_starts (st_events s) @
               map (restart_start L (st_initial_guess s) (st_bounds s) g0) [i..<Suc i]"
      by (simp add: minimize_starts_append)
    with lt show ?thesis by blast
  next
    case (Inr result)
    define s' where
      "s' = after_restart s (generator_before L (st_bounds s) g0 (Suc i)) ?x0 n i result"
    note f = after_restart_fields [of s "generator_before L (st_bounds s) g0 (Suc i)" ?x0 n i result,
        folded s'_def]
    have run: "restart_loop L n [Suc i..<m] s' = Raised ev h e"
      using Suc.prems(1) unfolding upt step Inr s'_def by simp
    have rng: "st_rng s' = generator_before L (st_bounds s') g0 (Suc i)"
      by (simp only: f)
    have k: "k = m - Suc i" using Suc.hyps(2) by simp
    from Suc.hyps(1) [OF k run rng]
    obtain j where j: "Suc i \<le> j" "j < m"
      and st: "minimize_starts ev =
               minimize_starts (st_events s') @
               map (restart_start L (st_initial_guess s') (st_bounds s') g0) [Suc i..<Suc j]"
      by auto
    have "[i..<Suc j] = i # [Suc i..<Suc j]" using j(1) by (intro upt_conv_Cons) simp
    then have "minimize_starts ev =
               minimize_starts (st_events s) @
               map (restart_start L (st_initial_guess s) (st_bounds s) g0) [i..<Suc j]"
      using st by (simp add: f)
    with j show ?thesis by (intro exI [of _ j]) simp
  qed
qed

subsection \<open>Strict comparison and the first best\<close>

lemma float_lt_irrefl: "\<not> float_lt a a"
  by (cases a) simp_all

lemma float_lt_trans: "float_lt a b \<Longrightarrow> float_lt b c \<Longrightarrow> float_lt a c"
  by (cases a; cases b; cases c) simp_all

lemma float_lt_finite: "float_lt a b \<Longrightarrow> float_lt a PosInf"
  by (cases a; cases b) simp_all

lemma float_lt_total:
  "float_lt a PosInf \<Longrightarrow> float_lt b PosInf \<Longrightarrow> float_lt a b \<or> a = b \<or> float_lt b a"
  by (cases a; cases b) auto

lemma float_lt_asym: "float_lt a b \<Longrightarrow> \<not> float_lt b a"
  by (cases a; cases b) simp_all

lemma first_best_find: "first_best rs = find (unbeaten rs) rs"
  by (simp add: first_best_def)

lemma ex_unbeaten:
  assumes "\<exists>r\<in>set ps. float_lt (res_fun r) PosInf"
  shows "\<exists>r\<in>set ps. unbeaten ps r"
  using assms
proof (induction ps)
  case Nil
  then show ?case by simp
next
  case (Cons x xs)
  show ?case
  proof (cases "\<exists>r\<in>set xs. float_lt (res_fun r) PosInf")
    case False
    with Cons.prems have fx: "float_lt (res_fun x) PosInf" by auto
    have "unbeaten (x # xs) x"
      unfolding unbeaten_def using fx False
      by (auto simp: float_lt_irrefl dest: float_lt_finite)
    then show ?thesis by auto
  next
    case True
    with Cons.IH obtain m where m: "m \<in> set xs" "unbeaten xs m" by blast
    show ?thesis
    proof (cases "float_lt (res_fun x) (res_fun m)")
      case True
      have "unbeaten (x # xs) x"
        unfolding unbeaten_def
      proof (intro conjI ballI)
        show "float_lt (res_fun x) PosInf" using True by (rule float_lt_finite)
        fix r' assume "r' \<in> set (x # xs)"
        then show "\<not> float_lt (res_fun r') (res_fun x)"
          using m(2) True float_lt_trans [of "res_fun r'" "res_fun x" "res_fun m"]
          by (auto simp: unbeaten_def float_lt_irrefl)
      qed
      then show ?thesis by auto
    next
      case False
      with m(2) have "unbeaten (x # xs) m" by (simp add: unbeaten_def)
      with m(1) show ?thesis by auto
    qed
  qed
qed

lemma first_best_None:
  assumes "first_best ps = None"
  shows "\<forall>r\<in>set ps. \<not> float_lt (res_fun r) PosInf"
proof (rule ccontr)
  assume "\<not> ?thesis"
  then have "\<exists>r\<in>set ps. unbeaten ps r" by (intro ex_unbeaten) simp
  with assms show False by (simp add: first_best_find find_None_iff)
qed

lemma find_app:
  "find P (xs @ ys) = (case find P xs of None \<Rightarrow> find P ys | Some x \<Rightarrow> Some x)"
  by (induction xs) simp_all

lemma keep_better_step: "keep_better (best_state ps) r = best_state (ps @ [r])"
proof (cases "first_best ps")
  case None
  note nf = first_best_None [OF None]
  have fail: "find (unbeaten (ps @ [r])) ps = None"
    using nf by (auto simp: find_None_iff unbeaten_def)
  have "unbeaten (ps @ [r]) r \<longleftrightarrow> float_lt (res_fun r) PosInf"
    using nf by (auto simp: unbeaten_def float_lt_irrefl dest: float_lt_finite)
  then have "first_best (ps @ [r]) = (if float_lt (res_fun r) PosInf then Some r else None)"
    by (simp add: first_best_find find_app fail)
  then show ?thesis
    by (simp add: best_state_def None keep_better_def)
next
  case (Some b)
  then obtain i where i: "i < length ps" "ps ! i = b" "unbeaten ps b"
    "\<forall>j<i. \<not> unbeaten ps (ps ! j)"
    by (auto simp: first_best_find find_Some_iff)
  have bfin: "float_lt (res_fun b) PosInf" and bmin: "\<forall>r'\<in>set ps. \<not> float_lt (res_fun r') (res_fun b)"
    using i(3) by (simp_all add: unbeaten_def)
  show ?thesis
  proof (cases "float_lt (res_fun r) (res_fun b)")
    case True
    have rfin: "float_lt (res_fun r) PosInf" using True by (rule float_lt_finite)
    have "\<not> unbeaten (ps @ [r]) x" if "x \<in> set ps" for x
    proof
      assume u: "unbeaten (ps @ [r]) x"
      then have xfin: "float_lt (res_fun x) PosInf" and "\<not> float_lt (res_fun r) (res_fun x)"
        by (simp_all add: unbeaten_def)
      moreover have "\<not> float_lt (res_fun x) (res_fun b)" using bmin that by simp
      ultimately show False
        using float_lt_total [OF xfin bfin] True float_lt_trans [of "res_fun r" "res_fun b" "res_fun x"]
        by auto
    qed
    then have fail: "find (unbeaten (ps @ [r])) ps = None"
      by (simp add: find_None_iff)
    have "unbeaten (ps @ [r]) r"
      unfolding unbeaten_def
    proof (intro conjI ballI)
      show "float_lt (res_fun r) PosInf" by (rule rfin)
      fix r' assume "r' \<in> set (ps @ [r])"
      then show "\<not> float_lt (res_fun r') (res_fun r)"
        using bmin True float_lt_trans [of "res_fun r'" "res_fun r" "res_fun b"]
        by (auto simp: float_lt_irrefl)
    qed
    then have "first_best (ps @ [r]) = Some r"
      by (simp add: first_best_find find_app fail)
    then show ?thesis
      by (simp add: best_state_def Some keep_better_def True)
  next
    case False
    have "unbeaten (ps @ [r]) b"
      using i(3) False by (simp add: unbeaten_def)
    moreover have "\<not> unbeaten (ps @ [r]) (ps ! j)" if "j < i" for j
      using i(4) that by (auto simp: unbeaten_def)
    ultimately have "find (unbeaten (ps @ [r])) ps = Some b"
      using i(1,2) by (auto simp: find_Some_iff)
    then have "first_best (ps @ [r]) = Some b"
      by (simp add: first_best_find find_app)
    then show ?thesis
      by (simp add: best_state_def Some keep_better_def False)
  qed
qed

lemma foldl_keep_better_from: "foldl keep_better (best_state ps) rs = best_state (ps @ rs)"
proof (induction rs arbitrary: ps)
  case Nil
  show ?case by simp
next
  case (Cons r rs)
  have "foldl keep_better (best_state ps) (r # rs) = foldl keep_better (best_state (ps @ [r])) rs"
    by (simp add: keep_better_step)
  also have "\<dots> = best_state ((ps @ [r]) @ rs)" by (rule Cons.IH)
  finally show ?case by simp
qed

lemma foldl_keep_better: "foldl keep_better (PosInf, None) rs = best_state rs"
  using foldl_keep_better_from [of "[]" rs] by (simp add: best_state_def first_best_def)

subsection \<open>Starts of the restarts\<close>

lemma fit_setup_running:
  assumes "fit_setup L g xy_df initial_guess n_samples bounds n_restarts seed = Running s0"
  shows "np_random_seed L seed = Inr (st_rng s0)"
    and "st_events s0 = [Log INFO (Starting_optimization n_restarts)]"
    and "st_bounds s0 = (case bounds of None \<Rightarrow> default_bounds | Some b \<Rightarrow> b)"
    and "st_initial_guess s0 =
           (case initial_guess of None \<Rightarrow> default_initial_guess | Some guess \<Rightarrow> guess)"
    and "st_best_result s0 = None" and "st_best_loss s0 = PosInf"
  using assms
  by (auto simp: fit_setup_def Let_def split: sum.splits)

lemma fit_setup_raised:
  assumes "fit_setup L g xy_df initial_guess n_samples bounds n_restarts seed = Raised ev h e"
  shows "ev = []"
  using assms
  by (auto simp: fit_setup_def Let_def split: sum.splits)

lemma fit_setup_ambient:
  assumes "np_random_seed L seed = Inr g0"
  shows "fit_setup L g1 xy_df initial_guess n_samples bounds n_restarts seed
         = fit_setup L g2 xy_df initial_guess n_samples bounds n_restarts seed"
  using assms by (simp add: fit_setup_def)

lemma fit_params_seed_raises:
  assumes "np_random_seed L seed = Inl e"
  shows "fit_params L g xy_df initial_guess n_samples bounds n_restarts seed = ([], g, Inl e)"
  using assms
  by (simp add: fit_params_def fit_params_search_def fit_params_restarts_def fit_setup_def)

lemma draw_vector_in_box:
  assumes "uniform_in_range L" "ordered_bounds b"
  shows "in_box b (fst (draw_vector L b g))"
  using assms
  by (simp add: uniform_in_range_def ordered_bounds_def in_box_def draw_vector_def split_def
      Let_def)

text \<open>
  Claim C3, as amended. In every run of \<open>fit_params\<close> in which the generator is seeded,
  the restarts that run start from these vectors, in order: restart 0 from the initial
  guess, which is the caller's \<open>initial_guess\<close> when one is given and the canonical
  \<open>theta_deg = 25.0, M = 0.0, X = 50.0\<close> otherwise; each restart \<open>i > 0\<close> from a vector of
  three draws of the generator seeded from \<open>seed\<close>, made from the state that restart
  \<open>i - 1\<close> left, so that every restart has draws of its own and the start of restart
  \<open>i\<close> is a function of the seed, the bounds, the initial guess and \<open>i\<close> alone. When the
  loop ends the generator is in the state after the draws of all restarts. With a
  \<open>np.random.uniform\<close> that stays in its range and bounds in order, every random start
  lies in the box of the bounds.
\<close>

theorem fit_params_restart_starts:
  assumes "np_random_seed L seed = Inr g0"
  shows "(\<exists>k\<le>nat n_restarts.
            minimize_starts
              (run_events (fit_params_restarts L g xy_df initial_guess n_samples bounds
                             n_restarts seed))
            = map (restart_start L
                     (case initial_guess of None \<Rightarrow> default_initial_guess | Some guess \<Rightarrow> guess)
                     (case bounds of None \<Rightarrow> default_bounds | Some b \<Rightarrow> b) g0) [0..<k] \<and>
            (\<forall>s. fit_params_restarts L g xy_df initial_guess n_samples bounds n_restarts seed
                   = Running s \<longrightarrow>
                 k = nat n_restarts \<and>
                 st_rng s = generator_before L
                              (case bounds of None \<Rightarrow> default_bounds | Some b \<Rightarrow> b) g0
                              (nat n_restarts))) \<and>
         restart_start L
           (case initial_guess of None \<Rightarrow> default_initial_guess | Some guess \<Rightarrow> guess)
           (case bounds of None \<Rightarrow> default_bounds | Some b \<Rightarrow> b) g0 0
         = (case initial_guess of
              None \<Rightarrow> [25.0, 0.0, 50.0]
            | Some guess \<Rightarrow> [p_theta_deg guess, p_M guess, p_X guess]) \<and>
         (uniform_in_range L \<and> ordered_bounds (case bounds of None \<Rightarrow> default_bounds | Some b \<Rightarrow> b)
            \<longrightarrow> (\<forall>i>0. in_box (case bounds of None \<Rightarrow> default_bounds | Some b \<Rightarrow> b)
                          (restart_start L
                             (case initial_guess of None \<Rightarrow> default_initial_guess
                              | Some guess \<Rightarrow> guess)
                             (case bounds of None \<Rightarrow> default_bounds | Some b \<Rightarrow> b) g0 i)))"
proof -
  define guess' where
    "guess' = (case initial_guess of None \<Rightarrow> default_initial_guess | Some guess \<Rightarrow> guess)"
  define b' where "b' = (case bounds of None \<Rightarrow> default_bounds | Some b \<Rightarrow> b)"
  let ?run = "fit_params_restarts L g xy_df initial_guess n_samples bounds n_restarts seed"
  let ?prep = "fit_setup L g xy_df initial_guess n_samples bounds n_restarts seed"
  have starts: "\<exists>k\<le>nat n_restarts.
            minimize_starts (run_events ?run) = map (restart_start L guess' b' g0) [0..<k] \<and>
            (\<forall>s. ?run = Running s \<longrightarrow>
                 k = nat n_restarts \<and> st_rng s = generator_before L b' g0 (nat n_restarts))"
  proof (cases ?prep)
    case (Raised ev h e)
    then have "?run = Raised [] h e"
      using fit_setup_raised [OF Raised] by (simp add: fit_params_restarts_def)
    then show ?thesis
      by (intro exI [of _ 0]) (simp add: run_events_def)
  next
    case (Running s0)
    note f = fit_setup_running [OF Running]
    from f(1) assms have g0: "st_rng s0 = g0" by simp
    have rng: "st_rng s0 = generator_before L (st_bounds s0) g0 0" by (simp add: g0)
    have run: "?run = restart_loop L n_restarts [0..<nat n_restarts] s0"
      by (simp add: fit_params_restarts_def Running)
    show ?thesis
    proof (cases "restart_loop L n_restarts [0..<nat n_restarts] s0")
      case (Raised ev h e)
      from restart_loop_raised [OF Raised rng]
      obtain k where k: "k < nat n_restarts"
        and "minimize_starts ev = map (restart_start L guess' b' g0) [0..<Suc k]"
        by (auto simp: f guess'_def b'_def)
      then show ?thesis
        by (intro exI [of _ "Suc k"]) (simp add: run Raised run_events_def)
    next
      case (Running s1)
      from restart_loop_running [OF Running rng]
      have "st_rng s1 = generator_before L b' g0 (nat n_restarts)"
        and "minimize_starts (st_events s1) = map (restart_start L guess' b' g0) [0..<nat n_restarts]"
        by (auto simp: f guess'_def b'_def)
      then show ?thesis
        by (intro exI [of _ "nat n_restarts"]) (simp add: run Running run_events_def)
    qed
  qed
  have first: "restart_start L guess' b' g0 0
         = (case initial_guess of
              None \<Rightarrow> [25.0, 0.0, 50.0]
            | Some guess \<Rightarrow> [p_theta_deg guess, p_M guess, p_X guess])"
    by (simp add: restart_start_def guess'_def default_initial_guess_def split: option.split)
  have box: "in_box b' (restart_start L guess' b' g0 i)"
    if "uniform_in_range L" "ordered_bounds b'" "0 < i" for i
    using that by (simp add: restart_start_def draw_vector_in_box)
  from starts first box show ?thesis
    unfolding guess'_def b'_def by blast
qed

lemma stub_loop_runs: "\<exists>s1. restart_loop stub_library n idxs s = Running s1"
proof (induction idxs arbitrary: s)
  case Nil
  show ?case by simp
next
  case (Cons i idxs)
  have m: "minimize stub_library loss x0 meth bnds opts
           = Inr \<lparr>res_x = x0, res_fun = Fin \<bar>hd x0 - 20\<bar>\<rparr>" for loss x0 meth bnds opts
    by (simp add: stub_library_def)
  show ?case
    by (simp only: restart_loop.simps Let_def split_def m sum.case Cons.IH)
qed

lemma stub_restarts_run:
  "\<exists>s. fit_params_restarts stub_library g sample_xy initial_guess 1 bounds n_restarts 42
        = Running s"
proof -
  have "\<exists>s0. fit_setup stub_library g sample_xy initial_guess 1 bounds n_restarts 42 = Running s0"
    by (simp add: fit_setup_def stub_library_def sample_xy_def column_values_def
        get_uniform_t_values_def np_linspace_def Let_def)
  then show ?thesis
    using stub_loop_runs by (auto simp: fit_params_restarts_def)
qed

lemma stub_uniform_in_range: "uniform_in_range stub_library"
proof -
  have "low \<le> low + (high - low) * (real (g mod 4) / 4) \<and>
        low + (high - low) * (real (g mod 4) / 4) \<le> high" if "low \<le> high" for low high :: real and g :: nat
  proof -
    have "g mod 4 < 4" by simp
    then have u: "0 \<le> real (g mod 4) / 4" "real (g mod 4) / 4 \<le> 1" by simp_all
    have "0 \<le> (high - low) * (real (g mod 4) / 4)" using that u by simp
    moreover have "(high - low) * (real (g mod 4) / 4) \<le> (high - low) * 1"
      using that u by (intro mult_left_mono) simp_all
    ultimately show ?thesis by simp
  qed
  then show ?thesis by (simp add: uniform_in_range_def stub_library_def)
qed

lemma stub_seed: "np_random_seed stub_library 42 = Inr 42"
  by (simp add: stub_library_def)

lemma stub_draws:
  "draw_vector stub_library default_bounds 42 = ([25, 49 / 2000, 1 / 10], 45)"
  "draw_vector stub_library default_bounds 45 = ([251 / 20, 0, 1499 / 20], 48)"
  by (simp_all add: draw_vector_def stub_library_def default_bounds_def)

theorem fit_params_restart_starts_witness:
  "np_random_seed stub_library 42 = Inr 42 \<and>
   minimize_starts (run_events (fit_params_restarts stub_library 0 sample_xy None 1 None 3 42))
     = [[25, 0, 50], [25, 49 / 2000, 1 / 10], [251 / 20, 0, 1499 / 20]] \<and>
   in_box default_bounds [25, 49 / 2000, 1 / 10] \<and>
   in_box default_bounds [251 / 20, 0, 1499 / 20]"
proof -
  obtain s where s: "fit_params_restarts stub_library 0 sample_xy None 1 None 3 42 = Running s"
    using stub_restarts_run by blast
  have ob: "ordered_bounds default_bounds"
    by (simp add: ordered_bounds_def default_bounds_def)
  have g: "generator_before stub_library default_bounds 42 (Suc 0) = 42"
    "generator_before stub_library default_bounds 42 2 = 45"
    by (simp_all add: numeral_2_eq_2 stub_draws)
  have r: "restart_start stub_library default_initial_guess default_bounds 42 0 = [25, 0, 50]"
    "restart_start stub_library default_initial_guess default_bounds 42 (Suc 0)
       = [25, 49 / 2000, 1 / 10]"
    "restart_start stub_library default_initial_guess default_bounds 42 2 = [251 / 20, 0, 1499 / 20]"
    by (simp_all add: restart_start_def g stub_draws default_initial_guess_def)
  note t = fit_params_restart_starts [OF stub_seed, of 3 0 sample_xy None 1 None]
  from t s have "minimize_starts (run_events (fit_params_restarts stub_library 0 sample_xy None 1 None 3 42))
     = map (restart_start stub_library default_initial_guess default_bounds 42) [0..<nat 3]"
    by auto
  moreover have "[0..<nat 3] = [0, 1, 2]" by (simp add: upt_rec)
  moreover from t stub_uniform_in_range ob
  have "in_box default_bounds
          (restart_start stub_library default_initial_guess default_bounds 42 (Suc 0))"
    "in_box default_bounds (restart_start stub_library default_initial_guess default_bounds 42 2)"
    by simp_all
  ultimately show ?thesis by (simp add: r stub_seed)
qed

text \<open>
  The claim as it was stated, that restart 0 starts from the canonical guess in every
  run, fails in a run with one restart and the initial guess
  \<open>theta_deg = 10, M = 0.01, X = 20\<close>: the first start is that guess.
\<close>

theorem fit_params_restart_zero_not_canonical:
  "hd (minimize_starts
         (fst (fit_params stub_library 0 sample_xy
                 (Some \<lparr>p_theta_deg = 10, p_M = 1 / 100, p_X = 20\<rparr>) 1 None 1 42)))
   \<noteq> [25, 0, 50]"
  by (simp add: fit_params_def fit_params_search_def fit_params_restarts_def fit_setup_def
      stub_library_def sample_xy_def column_values_def get_uniform_t_values_def np_linspace_def
      default_bounds_def global_search_def package_result_def Let_def minimize_starts_append)

subsection \<open>The global pass and the winner\<close>

lemma global_search_eval:
  "global_search L seed s =
     (case differential_evolution L (st_loss s) (st_scipy_bounds s) seed global_search_options of
        Inl e \<Rightarrow>
          Raised (st_events s @
                  [Log INFO Running_differential_evolution, Call_differential_evolution seed])
            (st_rng s) e
      | Inr de \<Rightarrow>
          Running
            (s\<lparr>st_events := st_events s @
                  [Log INFO Running_differential_evolution, Call_differential_evolution seed] @
                  (if float_lt (res_fun de) (st_best_loss s)
                   then [Log INFO (Differential_evolution_new_best (res_fun de))] else []),
               st_best_loss := fst (keep_better (st_best_loss s, st_best_result s) de),
               st_best_result := snd (keep_better (st_best_loss s, st_best_result s) de)\<rparr>))"
  by (simp add: global_search_def Let_def keep_better_def split: sum.split)

lemma package_result_some:
  assumes "st_best_result s = Some best" and "res_x best = [theta_deg, M, X]"
  shows "package_result s =
           (st_events s @
              (if validate_bounds theta_deg M X then []
               else [Log WARNING Optimal_parameters_outside_bounds]) @
              [Log INFO (Optimization_complete theta_deg M X (st_best_loss s))],
            st_rng s,
            Inr \<lparr>fr_theta_deg = theta_deg, fr_theta_rad = deg_to_rad theta_deg, fr_M = M,
                 fr_X = X, fr_l1 = st_best_loss s\<rparr>)"
  using assms by (simp add: package_result_def Let_def)

lemma best_state_snd: "snd (best_state rs) = first_best rs"
  by (simp add: best_state_def split: option.split)

lemma best_state_fst:
  "first_best rs = Some w \<Longrightarrow> fst (best_state rs) = res_fun w"
  by (simp add: best_state_def)

text \<open>
  Claim C2. In every run of \<open>fit_params\<close> that comes to the end of its restart loop, the
  pass of differential evolution is made next, once, and whatever the best loss of the
  restarts is: no call of it is among the events of the loop, and the run goes on with
  its result, or raises what it raised. Every comparison is by \<open><\<close>: the global result
  replaces the best local one exactly when its loss is strictly smaller, and the winner of
  the run is the first, in the order restart 0, 1, ..., then the global pass, among the
  results that no result beats strictly. On equal losses the result computed first wins,
  so the best local result is preferred over a global result with an equal loss.
  \<open>fit_params\<close> returns the parameters and the loss of this winner.
\<close>

theorem fit_params_global_pass_and_winner:
  assumes seeded: "np_random_seed L seed = Inr g0"
    and run: "fit_params_restarts L g xy_df initial_guess n_samples bounds n_restarts seed
              = Running s"
  shows "global_calls (st_events s) = [] \<and>
         (\<forall>e. differential_evolution L (st_loss s) (st_scipy_bounds s) seed global_search_options
                = Inl e \<longrightarrow>
              fit_params L g xy_df initial_guess n_samples bounds n_restarts seed
                = (st_events s @ [Log INFO Running_differential_evolution,
                                  Call_differential_evolution seed], st_rng s, Inl e)) \<and>
         (\<forall>de. differential_evolution L (st_loss s) (st_scipy_bounds s) seed global_search_options
                 = Inr de \<longrightarrow>
            (\<exists>s' rs.
               fit_params_search L g xy_df initial_guess n_samples bounds n_restarts seed
                 = Running s' \<and>
               st_events s' =
                 st_events s @
                 [Log INFO Running_differential_evolution, Call_differential_evolution seed] @
                 (if float_lt (res_fun de) (st_best_loss s)
                  then [Log INFO (Differential_evolution_new_best (res_fun de))] else []) \<and>
               global_calls (st_events s') = [seed] \<and>
               st_best_result s' =
                 (if float_lt (res_fun de) (st_best_loss s) then Some de else st_best_result s) \<and>
               (res_fun de = st_best_loss s \<longrightarrow> st_best_result s' = st_best_result s) \<and>
               map Inr rs =
                 map (\<lambda>i. minimize L (st_loss s)
                       (restart_start L
                          (case initial_guess of None \<Rightarrow> default_initial_guess
                           | Some guess \<Rightarrow> guess)
                          (case bounds of None \<Rightarrow> default_bounds | Some b \<Rightarrow> b) g0 i)
                       ''Nelder-Mead'' (st_scipy_bounds s) nelder_mead_options)
                   [0..<nat n_restarts] \<and>
               st_best_result s' = first_best (rs @ [de]) \<and>
               (\<forall>w theta_deg M X.
                  first_best (rs @ [de]) = Some w \<and> res_x w = [theta_deg, M, X] \<longrightarrow>
                  snd (snd (fit_params L g xy_df initial_guess n_samples bounds n_restarts seed))
                    = Inr \<lparr>fr_theta_deg = theta_deg, fr_theta_rad = deg_to_rad theta_deg,
                           fr_M = M, fr_X = X, fr_l1 = res_fun w\<rparr>)))"
proof -
  let ?prep = "fit_setup L g xy_df initial_guess n_samples bounds n_restarts seed"
  let ?de = "differential_evolution L (st_loss s) (st_scipy_bounds s) seed global_search_options"
  let ?dem = "[Log INFO Running_differential_evolution, Call_differential_evolution seed]"
  from run obtain s0 where s0: "?prep = Running s0"
    and loop: "restart_loop L n_restarts [0..<nat n_restarts] s0 = Running s"
    by (cases ?prep) (simp_all add: fit_params_restarts_def)
  note f = fit_setup_running [OF s0]
  from f(1) seeded have g0: "st_rng s0 = g0" by simp
  have rng: "st_rng s0 = generator_before L (st_bounds s0) g0 0" by (simp add: g0)
  from restart_loop_running [OF loop rng]
  obtain rs where rs: "map Inr rs =
               map (\<lambda>j. minimize L (st_loss s0)
                           (restart_start L (st_initial_guess s0) (st_bounds s0) g0 j)
                           ''Nelder-Mead'' (st_scipy_bounds s0) nelder_mead_options)
                 [0..<nat n_restarts]"
    and best: "(st_best_loss s, st_best_result s) = foldl keep_better (PosInf, None) rs"
    and calls: "global_calls (st_events s) = []"
    and same: "st_loss s = st_loss s0" "st_scipy_bounds s = st_scipy_bounds s0"
    by (auto simp: f)
  from best have bs: "(st_best_loss s, st_best_result s) = best_state rs"
    by (simp add: foldl_keep_better)
  have search: "fit_params_search L g xy_df initial_guess n_samples bounds n_restarts seed
                = global_search L seed s"
    by (simp add: fit_params_search_def run)
  have raised: "fit_params L g xy_df initial_guess n_samples bounds n_restarts seed
                = (st_events s @ ?dem, st_rng s, Inl e)" if "?de = Inl e" for e
    using that by (simp add: fit_params_def search global_search_eval)
  have returned: "\<exists>s' rs.
               fit_params_search L g xy_df initial_guess n_samples bounds n_restarts seed
                 = Running s' \<and>
               st_events s' =
                 st_events s @ ?dem @
                 (if float_lt (res_fun de) (st_best_loss s)
                  then [Log INFO (Differential_evolution_new_best (res_fun de))] else []) \<and>
               global_calls (st_events s') = [seed] \<and>
               st_best_result s' =
                 (if float_lt (res_fun de) (st_best_loss s) then Some de else st_best_result s) \<and>
               (res_fun de = st_best_loss s \<longrightarrow> st_best_result s' = st_best_result s) \<and>
               map Inr rs =
                 map (\<lambda>i. minimize L (st_loss s)
                       (restart_start L
                          (case initial_guess of None \<Rightarrow> default_initial_guess
                           | Some guess \<Rightarrow> guess)
                          (case bounds of None \<Rightarrow> default_bounds | Some b \<Rightarrow> b) g0 i)
                       ''Nelder-Mead'' (st_scipy_bounds s) nelder_mead_options)
                   [0..<nat n_restarts] \<and>
               st_best_result s' = first_best (rs @ [de]) \<and>
               (\<forall>w theta_deg M X.
                  first_best (rs @ [de]) = Some w \<and> res_x w = [theta_deg, M, X] \<longrightarrow>
                  snd (snd (fit_params L g xy_df initial_guess n_samples bounds n_restarts seed))
                    = Inr \<lparr>fr_theta_deg = theta_deg, fr_theta_rad = deg_to_rad theta_deg,
                           fr_M = M, fr_X = X, fr_l1 = res_fun w\<rparr>)"
    if de: "?de = Inr de" for de
  proof -
    define s' where "s' = s\<lparr>st_events := st_events s @ ?dem @
                  (if float_lt (res_fun de) (st_best_loss s)
                   then [Log INFO (Differential_evolution_new_best (res_fun de))] else []),
               st_best_loss := fst (keep_better (st_best_loss s, st_best_result s) de),
               st_best_result := snd (keep_better (st_best_loss s, st_best_result s) de)\<rparr>"
    have run': "fit_params_search L g xy_df initial_guess n_samples bounds n_restarts seed
                = Running s'"
      by (simp add: search global_search_eval de s'_def)
    have kb: "keep_better (st_best_loss s, st_best_result s) de = best_state (rs @ [de])"
      by (simp only: bs keep_better_step)
    have ev: "st_events s' = st_events s @ ?dem @
                 (if float_lt (res_fun de) (st_best_loss s)
                  then [Log INFO (Differential_evolution_new_best (res_fun de))] else [])"
      by (simp add: s'_def)
    have gc: "global_calls (st_events s') = [seed]"
      by (simp add: ev global_calls_append calls)
    have br: "st_best_result s' = first_best (rs @ [de])"
      by (simp add: s'_def kb best_state_snd)
    have br2: "st_best_result s' =
                 (if float_lt (res_fun de) (st_best_loss s) then Some de else st_best_result s)"
      by (simp add: s'_def keep_better_def)
    have tie: "res_fun de = st_best_loss s \<longrightarrow> st_best_result s' = st_best_result s"
      by (simp add: br2 float_lt_irrefl)
    have bl: "st_best_loss s' = fst (best_state (rs @ [de]))"
      by (simp add: s'_def kb)
    have fin: "snd (snd (fit_params L g xy_df initial_guess n_samples bounds n_restarts seed))
                    = Inr \<lparr>fr_theta_deg = theta_deg, fr_theta_rad = deg_to_rad theta_deg,
                           fr_M = M, fr_X = X, fr_l1 = res_fun w\<rparr>"
      if "first_best (rs @ [de]) = Some w" "res_x w = [theta_deg, M, X]" for w theta_deg M X
    proof -
      have "st_best_result s' = Some w" using that(1) br by simp
      from package_result_some [OF this that(2)] show ?thesis
        by (simp add: fit_params_def run' bl best_state_fst [OF that(1)])
    qed
    have rs': "map Inr rs =
                 map (\<lambda>i. minimize L (st_loss s)
                       (restart_start L
                          (case initial_guess of None \<Rightarrow> default_initial_guess
                           | Some guess \<Rightarrow> guess)
                          (case bounds of None \<Rightarrow> default_bounds | Some b \<Rightarrow> b) g0 i)
                       ''Nelder-Mead'' (st_scipy_bounds s) nelder_mead_options)
                   [0..<nat n_restarts]"
      using rs by (simp add: same f)
    from run' ev gc br2 tie rs' br fin show ?thesis by blast
  qed
  from calls raised returned show ?thesis by blast
qed

lemma stub_minimize:
  "minimize stub_library loss x0 meth bnds opts = Inr \<lparr>res_x = x0, res_fun = Fin \<bar>hd x0 - 20\<bar>\<rparr>"
  by (simp add: stub_library_def)

lemma stub_de:
  "differential_evolution stub_library loss bnds seed opts
   = Inr \<lparr>res_x = map fst bnds, res_fun = Fin 5\<rparr>"
  by (simp add: stub_library_def)

theorem fit_params_global_pass_and_winner_witness:
  "np_random_seed stub_library 42 = Inr 42 \<and>
   first_best [\<lparr>res_x = [25, 0, 50], res_fun = Fin 5\<rparr>,
               \<lparr>res_x = [1 / 10, - (49 / 1000), 1 / 10], res_fun = Fin 5\<rparr>]
     = Some \<lparr>res_x = [25, 0, 50], res_fun = Fin 5\<rparr> \<and>
   snd (snd (fit_params stub_library 0 sample_xy None 1 None 1 42))
     = Inr \<lparr>fr_theta_deg = 25, fr_theta_rad = deg_to_rad 25, fr_M = 0, fr_X = 50,
            fr_l1 = Fin 5\<rparr>"
proof -
  obtain s where s: "fit_params_restarts stub_library 0 sample_xy None 1 None 1 42 = Running s"
    using stub_restarts_run by blast
  let ?de = "\<lparr>res_x = map fst (st_scipy_bounds s), res_fun = Fin 5\<rparr>"
  let ?loc = "\<lparr>res_x = [25, 0, 50], res_fun = Fin 5\<rparr>"
  have de: "differential_evolution stub_library (st_loss s) (st_scipy_bounds s) 42
              global_search_options = Inr ?de"
    by (rule stub_de)
  note t = fit_params_global_pass_and_winner [OF stub_seed s, THEN conjunct2, THEN conjunct2,
      rule_format, OF de, unfolded option.case]
  from t obtain rs where rs: "map Inr rs =
                 map (\<lambda>i. minimize stub_library (st_loss s)
                       (restart_start stub_library default_initial_guess default_bounds 42 i)
                       ''Nelder-Mead'' (st_scipy_bounds s) nelder_mead_options)
                   [0..<nat 1]"
    and win: "\<forall>w theta_deg M X.
                  first_best (rs @ [?de]) = Some w \<and> res_x w = [theta_deg, M, X] \<longrightarrow>
                  snd (snd (fit_params stub_library 0 sample_xy None 1 None 1 42))
                    = Inr \<lparr>fr_theta_deg = theta_deg, fr_theta_rad = deg_to_rad theta_deg,
                           fr_M = M, fr_X = X, fr_l1 = res_fun w\<rparr>"
    by blast
  from rs have "map Inr rs = [Inr ?loc :: py_error + opt_result]"
    by (simp add: stub_minimize restart_start_def default_initial_guess_def)
  then have "rs = [?loc]"
    by (cases rs) auto
  then have "first_best (rs @ [?de]) = Some ?loc"
    by (simp add: first_best_def unbeaten_def)
  with win have "snd (snd (fit_params stub_library 0 sample_xy None 1 None 1 42))
     = Inr \<lparr>fr_theta_deg = 25, fr_theta_rad = deg_to_rad 25, fr_M = 0, fr_X = 50,
            fr_l1 = Fin 5\<rparr>"
    by simp
  moreover have "first_best [?loc, \<lparr>res_x = [1 / 10, - (49 / 1000), 1 / 10], res_fun = Fin 5\<rparr>]
     = Some ?loc"
    by (simp add: first_best_def unbeaten_def)
  ultimately show ?thesis by (simp add: stub_seed)
qed

subsection \<open>Determinism and the final check\<close>

text \<open>
  Claim C4. \<open>fit_params\<close> is deterministic: two runs with the same arguments (observed
  points, initial guess, \<open>n_samples\<close>, bounds, \<open>n_restarts\<close>, seed) log the same records,
  make the same calls and return the same FitResult, or raise the same exception,
  whatever states \<open>g1\<close> and \<open>g2\<close> the global generator is in when they begin: the first
  statement of \<open>fit_params\<close> overwrites that state with the seeded one. The optimizers
  are functions of their arguments here, as the model of the library says.
\<close>

theorem fit_params_deterministic:
  "fst (fit_params L g1 xy_df initial_guess n_samples bounds n_restarts seed)
     = fst (fit_params L g2 xy_df initial_guess n_samples bounds n_restarts seed) \<and>
   snd (snd (fit_params L g1 xy_df initial_guess n_samples bounds n_restarts seed))
     = snd (snd (fit_params L g2 xy_df initial_guess n_samples bounds n_restarts seed)) \<and>
   (\<forall>g0. np_random_seed L seed = Inr g0 \<longrightarrow>
      fit_params L g1 xy_df initial_guess n_samples bounds n_restarts seed
        = fit_params L g2 xy_df initial_guess n_samples bounds n_restarts seed)"
proof (cases "np_random_seed L seed")
  case (Inl e)
  then show ?thesis by (simp add: fit_params_seed_raises)
next
  case (Inr g0)
  have "fit_setup L g1 xy_df initial_guess n_samples bounds n_restarts seed
        = fit_setup L g2 xy_df initial_guess n_samples bounds n_restarts seed"
    using Inr by (rule fit_setup_ambient)
  then have "fit_params L g1 xy_df initial_guess n_samples bounds n_restarts seed
        = fit_params L g2 xy_df initial_guess n_samples bounds n_restarts seed"
    by (simp add: fit_params_def fit_params_search_def fit_params_restarts_def)
  then show ?thesis by simp
qed

theorem fit_params_deterministic_witness:
  "np_random_seed stub_library 42 = Inr 42 \<and>
   fit_params stub_library 0 sample_xy None 1 None 3 42
     = fit_params stub_library 7 sample_xy None 1 None 3 42"
  using fit_params_deterministic [of stub_library 0 sample_xy None 1 None 3 42 7] stub_seed
  by simp

text \<open>
  Claim C8. When the winning parameters of a run fail \<open>validate_bounds\<close>, the strict test
  \<open>0 < theta_deg < 50\<close>, \<open>-0.05 < M < 0.05\<close>, \<open>0 < X < 100\<close>, \<open>fit_params\<close> still returns:
  it logs one warning more, and the FitResult holds the winning parameters unaltered
  (\<open>theta_deg\<close>, its conversion to radians, \<open>M\<close>, \<open>X\<close> and the winning loss), the same
  record as when the test passes.
\<close>

theorem fit_params_bounds_violation_nonfatal:
  assumes "fit_params_search L g xy_df initial_guess n_samples bounds n_restarts seed = Running s"
    and "st_best_result s = Some best"
    and "res_x best = [theta_deg, M, X]"
  shows "fit_params L g xy_df initial_guess n_samples bounds n_restarts seed =
           (st_events s @
              (if validate_bounds theta_deg M X then []
               else [Log WARNING Optimal_parameters_outside_bounds]) @
              [Log INFO (Optimization_complete theta_deg M X (st_best_loss s))],
            st_rng s,
            Inr \<lparr>fr_theta_deg = theta_deg, fr_theta_rad = deg_to_rad theta_deg, fr_M = M,
                 fr_X = X, fr_l1 = st_best_loss s\<rparr>)"
  using package_result_some [OF assms(2,3)] by (simp add: fit_params_def assms(1))

lemma stub_search_outside:
  "\<exists>s. fit_params_search stub_library 0 sample_xy
          (Some \<lparr>p_theta_deg = 30, p_M = 0, p_X = 50\<rparr>) 1
          (Some \<lparr>p_theta_deg = (0, 60), p_M = (- (1 / 20), 1 / 20), p_X = (0, 100)\<rparr>) 1 42
        = Running s \<and>
       st_best_result s = Some \<lparr>res_x = [0, - (1 / 20), 0], res_fun = Fin 5\<rparr> \<and>
       st_best_loss s = Fin 5 \<and> st_rng s = 42 \<and>
       st_events s =
         [Log INFO (Starting_optimization 1), Call_minimize [30, 0, 50],
          Log INFO (Restart_new_best 1 1 (Fin 10)),
          Log INFO Running_differential_evolution, Call_differential_evolution 42,
          Log INFO (Differential_evolution_new_best (Fin 5))]"
  by (simp add: fit_params_search_def fit_params_restarts_def fit_setup_def stub_library_def
      sample_xy_def column_values_def get_uniform_t_values_def np_linspace_def
      global_search_def Let_def)

theorem fit_params_bounds_violation_nonfatal_witness:
  "\<not> validate_bounds 0 (- (1 / 20)) 0 \<and>
   fit_params stub_library 0 sample_xy
     (Some \<lparr>p_theta_deg = 30, p_M = 0, p_X = 50\<rparr>) 1
     (Some \<lparr>p_theta_deg = (0, 60), p_M = (- (1 / 20), 1 / 20), p_X = (0, 100)\<rparr>) 1 42
   = ([Log INFO (Starting_optimization 1), Call_minimize [30, 0, 50],
       Log INFO (Restart_new_best 1 1 (Fin 10)),
       Log INFO Running_differential_evolution, Call_differential_evolution 42,
       Log INFO (Differential_evolution_new_best (Fin 5)),
       Log WARNING Optimal_parameters_outside_bounds,
       Log INFO (Optimization_complete 0 (- (1 / 20)) 0 (Fin 5))],
      42,
      Inr \<lparr>fr_theta_deg = 0, fr_theta_rad = deg_to_rad 0, fr_M = - (1 / 20), fr_X = 0,
           fr_l1 = Fin 5\<rparr>)"
proof -
  from stub_search_outside obtain s where
    s: "fit_params_search stub_library 0 sample_xy
          (Some \<lparr>p_theta_deg = 30, p_M = 0, p_X = 50\<rparr>) 1
          (Some \<lparr>p_theta_deg = (0, 60), p_M = (- (1 / 20), 1 / 20), p_X = (0, 100)\<rparr>) 1 42
        = Running s"
    and b: "st_best_result s = Some \<lparr>res_x = [0, - (1 / 20), 0], res_fun = Fin 5\<rparr>"
    and r: "st_best_loss s = Fin 5" "st_rng s = 42"
       "st_events s =
         [Log INFO (Starting_optimization 1), Call_minimize [30, 0, 50],
          Log INFO (Restart_new_best 1 1 (Fin 10)),
          Log INFO Running_differential_evolution, Call_differential_evolution 42,
          Log INFO (Differential_evolution_new_best (Fin 5))]"
    by blast
  have v: "\<not> validate_bounds 0 (- (1 / 20)) 0" by (simp add: validate_bounds_def)
  from fit_params_bounds_violation_nonfatal [OF s b, of 0 "- (1 / 20)" 0] v
  show ?thesis by (simp add: r)
qed

end
